theory Spec2Isabelle
  imports Main "HOL-Library.Word" "HOL-Library.AList"
begin

unbundle bit_operations_syntax

section \<open>Byte buffers and little-endian reads\<close>

text \<open>
  An ArrayBuffer is a list of bytes; \<open>f32\<close> is the IEEE-754 bit pattern of a float32, as
  it lies in a buffer.
\<close>

type_synonym byte = "8 word"
type_synonym u32 = "32 word"
type_synonym f32 = "32 word"
type_synonym ArrayBuffer = "byte list"
type_synonym addr = nat

text \<open>
  The JavaScript Number that \<open>getFloat32\<close> returns and that an element of a
  Float32Array reads as: \<open>NaN\<close>, or a value that is not a NaN, given by its float32 bit
  pattern (a finite value, a zero of either sign, an infinity). JavaScript has one NaN:
  a Number carries no NaN payload, and which NaN pattern a Float32Array keeps for it is
  left to the engine and cannot be seen through the elements of the array. A pattern is
  a NaN when its exponent bits are all set and its fraction is not zero. The loader
  never computes with these values; \<open>fill(0)\<close> writes \<open>+0\<close>, the pattern 0.
\<close>

datatype number = NaN | Num f32

type_synonym Float32Array = "number list"

definition is_nan_bits :: "f32 \<Rightarrow> bool" where
  "is_nan_bits w \<longleftrightarrow> w AND 0x7F800000 = 0x7F800000 \<and> w AND 0x007FFFFF \<noteq> 0"

definition number_of_bits :: "f32 \<Rightarrow> number" where
  "number_of_bits w = (if is_nan_bits w then NaN else Num w)"

text \<open>
  What the code can throw: a TypeError (a property read on \<open>null\<close> or \<open>undefined\<close>), a
  RangeError (a DataView or Uint8Array access outside the buffer), the
  \<open>Error("Failed to fetch url: status")\<close> of \<open>_fetchBinary\<close> and \<open>_loadJSON\<close>, the
  rejection of \<open>fetch\<close> itself, and the SyntaxError of \<open>response.json()\<close>.
\<close>

datatype error = TypeError | RangeError | FetchError string nat | NetworkError | SyntaxError

definition u32_of_bytes :: "byte \<Rightarrow> byte \<Rightarrow> byte \<Rightarrow> byte \<Rightarrow> u32" where
  "u32_of_bytes b0 b1 b2 b3 =
     ucast b0 OR push_bit 8 (ucast b1) OR push_bit 16 (ucast b2) OR push_bit 24 (ucast b3)"

text \<open>\<open>view.getUint32(offset, true)\<close>: little-endian, RangeError outside the buffer.\<close>

definition getUint32 :: "ArrayBuffer \<Rightarrow> nat \<Rightarrow> error + u32" where
  "getUint32 buffer offset =
     (if offset + 4 \<le> length buffer
      then Inr (u32_of_bytes (buffer ! offset) (buffer ! (offset + 1))
                             (buffer ! (offset + 2)) (buffer ! (offset + 3)))
      else Inl RangeError)"

text \<open>\<open>view.getFloat32(offset, true)\<close>: the same four bytes, read as a float32 into a Number.\<close>

definition getFloat32 :: "ArrayBuffer \<Rightarrow> nat \<Rightarrow> error + number" where
  "getFloat32 buffer offset =
     (case getUint32 buffer offset of Inl e \<Rightarrow> Inl e | Inr w \<Rightarrow> Inr (number_of_bits w))"

section \<open>The data model\<close>

text \<open>
  A cell of the base data. \<open>sections[i]\<close> and \<open>celltypes[i]\<close> are \<open>undefined\<close> (None)
  when the table is shorter than the table of cell ids.
\<close>

record cell =
  cell_id :: string
  cell_x :: number
  cell_y :: number
  cell_slice :: "string option"
  cell_region :: "string option"

text \<open>The object \<open>_loadBaseData\<close> returns; its field \<open>baseData\<close> is called \<open>cells\<close> here.\<close>

record base_data =
  cellIds :: "string list"
  coordinates :: "(number \<times> number) list"
  sections :: "string list"
  celltypes :: "string list"
  cells :: "cell list"

text \<open>
  What \<open>metadata.json\<close> parses to. The documented shape is
  \<open>{genes: {total, features}, tfs: {total, features}}\<close>, but the file is data: the
  properties \<open>genes\<close>, \<open>tfs\<close> and \<open>features\<close> may be missing (None), and the whole value
  may be \<open>null\<close> (\<open>JsonValue None\<close>). A value that is not an object has no properties and
  behaves as the object without \<open>genes\<close> and \<open>tfs\<close>.
\<close>

record feature_index =
  total :: nat
  features :: "string list option"

record metadata =
  genes :: "feature_index option"
  tfs :: "feature_index option"

datatype json_result = JsonThrows | JsonValue "metadata option"

text \<open>
  The byte source and the engine. \<open>fetch env url\<close> is the response the browser's
  \<open>fetch\<close> resolves to (None: the promise rejects); \<open>json\<close> is what \<open>response.json()\<close>
  does with the body; \<open>TextDecoder_decode\<close> is \<open>new TextDecoder().decode\<close>. When
  several of the loads under a \<open>Promise.all\<close> fail, \<open>firstSettled\<close> picks the one that
  fails first in time. \<open>maxArguments\<close> is the largest number of arguments the engine
  accepts in one call: a spread \<open>push(...array)\<close> of a longer array throws a RangeError.
\<close>

record response =
  ok :: bool
  status :: nat
  arrayBuffer :: ArrayBuffer
  json :: json_result

record env =
  fetch :: "string \<Rightarrow> response option"
  TextDecoder_decode :: "byte list \<Rightarrow> string"
  firstSettled :: nat
  maxArguments :: nat

text \<open>
  The state of a \<open>BinaryDataLoader\<close>. \<open>loadedFeatures\<close> is the JS Map, in insertion
  order; it holds references, so the Float32Array objects live in a store (\<open>heap\<close>, an
  address is an index into it). \<open>fetchLog\<close> records every url handed to \<open>fetch\<close>, in
  order.
\<close>

record loader =
  basePath :: string
  metadata :: "metadata option"
  baseData :: "base_data option"
  loadedFeatures :: "(string \<times> addr) list"
  heap :: "Float32Array list"
  fetchLog :: "string list"

definition BinaryDataLoader :: "string \<Rightarrow> loader" where
  "BinaryDataLoader bp =
     \<lparr>basePath = bp, metadata = None, baseData = None, loadedFeatures = [],
      heap = [], fetchLog = []\<rparr>"

section \<open>The binary decoders\<close>

text \<open>The part of \<open>_fetchBinary\<close> that runs once the response has arrived.\<close>

definition fetchBinary_finish :: "string \<Rightarrow> response option \<Rightarrow> error + ArrayBuffer" where
  "fetchBinary_finish url r =
     (case r of
        None \<Rightarrow> Inl NetworkError
      | Some resp \<Rightarrow>
          if \<not> ok resp then Inl (FetchError url (status resp)) else Inr (arrayBuffer resp))"

definition loadJSON_finish :: "string \<Rightarrow> response option \<Rightarrow> error + metadata option" where
  "loadJSON_finish url r =
     (case r of
        None \<Rightarrow> Inl NetworkError
      | Some resp \<Rightarrow>
          if \<not> ok resp then Inl (FetchError url (status resp))
          else (case json resp of JsonThrows \<Rightarrow> Inl SyntaxError | JsonValue m \<Rightarrow> Inr m))"

text \<open>
  The loop of \<open>_parseFeatureBinary\<close>, with the number of iterations left: each one reads
  a cell index and a value, and stores the value only where the index is inside the
  array.
\<close>

fun fill_loop :: "ArrayBuffer \<Rightarrow> nat \<Rightarrow> nat \<Rightarrow> Float32Array \<Rightarrow> error + Float32Array" where
  "fill_loop buffer offset 0 featureArray = Inr featureArray"
| "fill_loop buffer offset (Suc k) featureArray =
     (case getUint32 buffer offset of
        Inl e \<Rightarrow> Inl e
      | Inr cellIndex \<Rightarrow>
          (case getFloat32 buffer (offset + 4) of
             Inl e \<Rightarrow> Inl e
           | Inr v \<Rightarrow>
               fill_loop buffer (offset + 8) k
                 (if unat cellIndex < length featureArray
                  then featureArray[unat cellIndex := v] else featureArray)))"

definition parseFeatureBinary :: "loader \<Rightarrow> ArrayBuffer \<Rightarrow> error + Float32Array" where
  "parseFeatureBinary st buffer =
     (case getUint32 buffer 0 of
        Inl e \<Rightarrow> Inl e
      | Inr nonZeroCount \<Rightarrow>
          (case baseData st of
             None \<Rightarrow> Inl TypeError
           | Some bd \<Rightarrow>
               fill_loop buffer 4 (unat nonZeroCount)
                 (replicate (length (cellIds bd)) (Num 0))))"

text \<open>The loop of \<open>_loadCellIds\<close> and \<open>_loadStringArray\<close>.\<close>

fun string_loop ::
  "(byte list \<Rightarrow> string) \<Rightarrow> ArrayBuffer \<Rightarrow> nat \<Rightarrow> nat \<Rightarrow> string list \<Rightarrow> error + string list" where
  "string_loop dec buffer offset 0 strings = Inr strings"
| "string_loop dec buffer offset (Suc k) strings =
     (case getUint32 buffer offset of
        Inl e \<Rightarrow> Inl e
      | Inr strLength \<Rightarrow>
          if offset + 4 + unat strLength \<le> length buffer
          then string_loop dec buffer (offset + 4 + unat strLength) k
                 (strings @ [dec (take (unat strLength) (drop (offset + 4) buffer))])
          else Inl RangeError)"

definition parseStringArray :: "(byte list \<Rightarrow> string) \<Rightarrow> ArrayBuffer \<Rightarrow> error + string list" where
  "parseStringArray dec buffer =
     (case getUint32 buffer 0 of
        Inl e \<Rightarrow> Inl e
      | Inr count \<Rightarrow> string_loop dec buffer 4 (unat count) [])"

text \<open>The loop of \<open>_loadCoordinates\<close>.\<close>

fun coordinate_loop ::
  "ArrayBuffer \<Rightarrow> nat \<Rightarrow> nat \<Rightarrow> (number \<times> number) list \<Rightarrow>
     error + (number \<times> number) list" where
  "coordinate_loop buffer offset 0 cs = Inr cs"
| "coordinate_loop buffer offset (Suc k) cs =
     (case getFloat32 buffer offset of
        Inl e \<Rightarrow> Inl e
      | Inr cx \<Rightarrow>
          (case getFloat32 buffer (offset + 4) of
             Inl e \<Rightarrow> Inl e
           | Inr cy \<Rightarrow> coordinate_loop buffer (offset + 8) k (cs @ [(cx, cy)])))"

definition parseCoordinates :: "ArrayBuffer \<Rightarrow> error + (number \<times> number) list" where
  "parseCoordinates buffer =
     (case getUint32 buffer 0 of
        Inl e \<Rightarrow> Inl e
      | Inr count \<Rightarrow> coordinate_loop buffer 4 (unat count) [])"

section \<open>Initialisation\<close>

definition nth_opt :: "'a list \<Rightarrow> nat \<Rightarrow> 'a option" where
  "nth_opt xs i = (if i < length xs then Some (xs ! i) else None)"

text \<open>
  One iteration of the loop that zips the four tables: \<open>coordinates[i].x\<close> throws a
  TypeError when \<open>coordinates[i]\<close> is \<open>undefined\<close>.
\<close>

definition make_cell ::
  "string list \<Rightarrow> (number \<times> number) list \<Rightarrow> string list \<Rightarrow> string list \<Rightarrow> nat \<Rightarrow>
     error + cell" where
  "make_cell ids coords secs types i =
     (if i < length coords
      then Inr \<lparr>cell_id = ids ! i, cell_x = fst (coords ! i), cell_y = snd (coords ! i),
                cell_slice = nth_opt secs i, cell_region = nth_opt types i\<rparr>
      else Inl TypeError)"

fun push_loop :: "(nat \<Rightarrow> error + 'a) \<Rightarrow> nat list \<Rightarrow> 'a list \<Rightarrow> error + 'a list" where
  "push_loop f [] acc = Inr acc"
| "push_loop f (i # is) acc =
     (case f i of Inl e \<Rightarrow> Inl e | Inr c \<Rightarrow> push_loop f is (acc @ [c]))"

definition sum_bind :: "error + 'a \<Rightarrow> ('a \<Rightarrow> error + 'b) \<Rightarrow> error + 'b" where
  "sum_bind r f = (case r of Inl e \<Rightarrow> Inl e | Inr v \<Rightarrow> f v)"

definition errors_of :: "error + 'a \<Rightarrow> error list" where
  "errors_of r = (case r of Inl e \<Rightarrow> [e] | Inr v \<Rightarrow> [])"

text \<open>
  \<open>_loadBaseData\<close>: \<open>Promise.all\<close> starts the four loads, so the four fetches are issued
  whatever their outcome, and it rejects with the failure that comes first in time.
\<close>

definition loadBaseData :: "env \<Rightarrow> loader \<Rightarrow> (error + base_data) \<times> loader" where
  "loadBaseData env st =
     (let u1 = basePath st @ ''/base/cell_ids.bin'';
          u2 = basePath st @ ''/base/coordinates.bin'';
          u3 = basePath st @ ''/base/sections.bin'';
          u4 = basePath st @ ''/base/celltypes.bin'';
          st' = st\<lparr>fetchLog := fetchLog st @ [u1, u2, u3, u4]\<rparr>;
          dec = TextDecoder_decode env;
          r1 = sum_bind (fetchBinary_finish u1 (fetch env u1)) (parseStringArray dec);
          r2 = sum_bind (fetchBinary_finish u2 (fetch env u2)) parseCoordinates;
          r3 = sum_bind (fetchBinary_finish u3 (fetch env u3)) (parseStringArray dec);
          r4 = sum_bind (fetchBinary_finish u4 (fetch env u4)) (parseStringArray dec);
          failures = errors_of r1 @ errors_of r2 @ errors_of r3 @ errors_of r4
      in (if failures \<noteq> [] then Inl (failures ! (firstSettled env mod length failures))
          else
            sum_bind r1 (\<lambda>ids. sum_bind r2 (\<lambda>coords. sum_bind r3 (\<lambda>secs. sum_bind r4 (\<lambda>types.
            sum_bind (push_loop (make_cell ids coords secs types) [0..<length ids] []) (\<lambda>cs.
            Inr \<lparr>cellIds = ids, coordinates = coords, sections = secs, celltypes = types,
                  cells = cs\<rparr>))))),
          st'))"

text \<open>
  The two awaits of \<open>init\<close>: the metadata is fetched and stored, then the base data is
  loaded (and not yet stored).
\<close>

definition init_loads :: "env \<Rightarrow> loader \<Rightarrow> (error + base_data) \<times> loader" where
  "init_loads env st =
     (let u = basePath st @ ''/metadata.json'';
          st1 = st\<lparr>fetchLog := fetchLog st @ [u]\<rparr>
      in case loadJSON_finish u (fetch env u) of
           Inl e \<Rightarrow> (Inl e, st1)
         | Inr m \<Rightarrow> loadBaseData env (st1\<lparr>metadata := m\<rparr>))"

text \<open>
  The arguments of the \<open>console.log\<close> that ends \<open>init\<close>:
  \<open>this.baseData.cellIds.length\<close>, \<open>this.metadata.genes.total\<close> and
  \<open>this.metadata.tfs.total\<close>. Reading a property of \<open>null\<close> or \<open>undefined\<close> throws.
\<close>

definition log_arguments :: "loader \<Rightarrow> error + unit" where
  "log_arguments st =
     (case baseData st of
        None \<Rightarrow> Inl TypeError
      | Some bd \<Rightarrow>
          (case metadata st of
             None \<Rightarrow> Inl TypeError
           | Some m \<Rightarrow>
               (case genes m of
                  None \<Rightarrow> Inl TypeError
                | Some g \<Rightarrow> (case tfs m of None \<Rightarrow> Inl TypeError | Some t \<Rightarrow> Inr ()))))"

text \<open>
  \<open>init\<close>: the base data is stored before the log statement runs, so an \<open>init\<close> that
  fails there leaves it stored.
\<close>

definition init :: "env \<Rightarrow> loader \<Rightarrow> (error + bool) \<times> loader" where
  "init env st =
     (case init_loads env st of
        (Inl e, st2) \<Rightarrow> (Inl e, st2)
      | (Inr bd, st2) \<Rightarrow>
          (let st3 = st2\<lparr>baseData := Some bd\<rparr>
           in case log_arguments st3 of
                Inl e \<Rightarrow> (Inl e, st3)
              | Inr u \<Rightarrow> (Inr True, st3)))"

definition getBaseData :: "loader \<Rightarrow> error + cell list" where
  "getBaseData st = (case baseData st of None \<Rightarrow> Inl TypeError | Some bd \<Rightarrow> Inr (cells bd))"

definition getAllFeatures :: "loader \<Rightarrow> error + (string list \<times> string list)" where
  "getAllFeatures st =
     (case metadata st of
        None \<Rightarrow> Inl TypeError
      | Some m \<Rightarrow>
          (case genes m of
             None \<Rightarrow> Inl TypeError
           | Some g \<Rightarrow>
               (case tfs m of
                  None \<Rightarrow> Inl TypeError
                | Some t \<Rightarrow>
                    Inr (case features g of None \<Rightarrow> [] | Some fs \<Rightarrow> fs,
                         case features t of None \<Rightarrow> [] | Some fs \<Rightarrow> fs))))"

section \<open>Loading a feature\<close>

text \<open>
  \<open>loadFeature\<close> is an async function with one suspension point, the \<open>await\<close> of the
  fetch. \<open>loadFeature_start\<close> is what runs at the call, up to that point: the cache
  check and, on a miss, the call of \<open>fetch\<close>. \<open>loadFeature_resume\<close> is what runs when the
  response has arrived: the decoding, the insertion into the cache, or the \<open>catch\<close>
  block. A default parameter is an optional argument.
\<close>

datatype call = Resolved "error + addr" | Awaiting string string

definition featurePath :: "loader \<Rightarrow> string option \<Rightarrow> string \<Rightarrow> string" where
  "featurePath st category featureName =
     basePath st @ ''/'' @ (case category of None \<Rightarrow> ''genes'' | Some c \<Rightarrow> c) @ ''/'' @
     featureName @ ''.bin''"

definition loadFeature_start :: "string \<Rightarrow> string option \<Rightarrow> loader \<Rightarrow> call \<times> loader" where
  "loadFeature_start featureName category st =
     (case map_of (loadedFeatures st) featureName of
        Some a \<Rightarrow> (Resolved (Inr a), st)
      | None \<Rightarrow>
          (let filePath = featurePath st category featureName
           in (Awaiting featureName filePath, st\<lparr>fetchLog := fetchLog st @ [filePath]\<rparr>)))"

text \<open>The body of the \<open>try\<close> block after the suspension point, up to the decoded array.\<close>

definition try_decode :: "string \<Rightarrow> response option \<Rightarrow> loader \<Rightarrow> error + Float32Array" where
  "try_decode filePath r st =
     (case fetchBinary_finish filePath r of
        Inl e \<Rightarrow> Inl e
      | Inr buffer \<Rightarrow> parseFeatureBinary st buffer)"

definition loadFeature_resume ::
  "string \<Rightarrow> string \<Rightarrow> response option \<Rightarrow> loader \<Rightarrow> (error + addr) \<times> loader" where
  "loadFeature_resume featureName filePath r st =
     (case try_decode filePath r st of
        Inr featureData \<Rightarrow>
          (let a = length (heap st)
           in (Inr a, st\<lparr>heap := heap st @ [featureData],
                         loadedFeatures := AList.update featureName a (loadedFeatures st)\<rparr>))
      | Inl e \<Rightarrow>
          (case baseData st of
             None \<Rightarrow> (Inl TypeError, st)
           | Some bd \<Rightarrow>
               (Inr (length (heap st)),
                st\<lparr>heap := heap st @ [replicate (length (cellIds bd)) (Num 0)]\<rparr>)))"

text \<open>A call that runs to completion with no other call in between.\<close>

definition loadFeature ::
  "env \<Rightarrow> string \<Rightarrow> string option \<Rightarrow> loader \<Rightarrow> (error + addr) \<times> loader" where
  "loadFeature env featureName category st =
     (case loadFeature_start featureName category st of
        (Resolved r, st') \<Rightarrow> (r, st')
      | (Awaiting n p, st') \<Rightarrow> loadFeature_resume n p (fetch env p) st')"

text \<open>
  Concurrent calls: each call of the list runs to its suspension point before any
  response arrives (JavaScript runs the synchronous part of an async function at the
  call). The result is the list of calls, resolved or waiting, and the state.
\<close>

fun issue_calls :: "(string \<times> string option) list \<Rightarrow> loader \<Rightarrow> call list \<times> loader" where
  "issue_calls [] st = ([], st)"
| "issue_calls ((n, c) # rs) st =
     (case loadFeature_start n c st of
        (k, st') \<Rightarrow> (case issue_calls rs st' of (ks, st'') \<Rightarrow> (k # ks, st'')))"

text \<open>Calls one after the other, each run to completion, under one byte source.\<close>

fun run_loads :: "env \<Rightarrow> (string \<times> string option) list \<Rightarrow> loader \<Rightarrow> loader" where
  "run_loads env [] st = st"
| "run_loads env ((n, c) # rs) st = run_loads env rs (snd (loadFeature env n c st))"

text \<open>
  A caller that holds the reference \<open>a\<close> to a Float32Array and assigns \<open>arr[i] = v\<close>
  (\<open>v\<close> is what the element reads as afterwards); a typed array ignores an index outside
  its bounds.
\<close>

definition caller_write :: "addr \<Rightarrow> nat \<Rightarrow> number \<Rightarrow> loader \<Rightarrow> loader" where
  "caller_write a i v st = st\<lparr>heap := (heap st)[a := (heap st ! a)[i := v]]\<rparr>"

text \<open>
  A caller that holds the array \<open>getBaseData\<close> returned and assigns \<open>arr[i] = c\<close> for an
  \<open>i\<close> inside the array. The array is \<open>this.baseData.baseData\<close> itself, so the write
  lands in the loader.
\<close>

definition caller_assign_cell :: "nat \<Rightarrow> cell \<Rightarrow> loader \<Rightarrow> loader" where
  "caller_assign_cell i c st =
     st\<lparr>baseData :=
          (case baseData st of
             None \<Rightarrow> None
           | Some bd \<Rightarrow> Some (if i < length (cells bd) then bd\<lparr>cells := (cells bd)[i := c]\<rparr> else bd))\<rparr>"

section \<open>The module realDataConstants\<close>

text \<open>
  The module's variables: the singleton loader, \<open>isInitialized\<close>, \<open>BASE_DATA\<close>, and the
  display constants (\<open>ALL_SLICES\<close>, \<open>ALL_REGIONS\<close>, \<open>ALL_TRAITS_FLAT\<close>, \<open>SECTION_DATA\<close>).
  \<open>initializeData\<close> computes the display constants by code that reads only its
  arguments; that code is two parameters. \<open>derive_traits\<close> is the part before
  \<open>BASE_DATA\<close> is filled (slices, regions, traits); its two spreads can throw, and it
  returns the error, if any, with the constants as it leaves them. \<open>derive_sections\<close>
  is the part after it. In between, \<open>BASE_DATA.length = 0\<close> empties the array and
  \<open>BASE_DATA.push(...baseData)\<close> fills it, or throws when there are more cells than the
  engine accepts as arguments.
\<close>

record 'c module =
  binaryDataLoader :: loader
  isInitialized :: bool
  BASE_DATA :: "cell list"
  display :: 'c

definition initializeData ::
  "(cell list \<Rightarrow> string list \<times> string list \<Rightarrow> 'c \<Rightarrow> error option \<times> 'c) \<Rightarrow> ('c \<Rightarrow> 'c) \<Rightarrow>
     env \<Rightarrow> 'c module \<Rightarrow> (error + bool) \<times> 'c module" where
  "initializeData derive_traits derive_sections env m =
     (if isInitialized m then (Inr True, m)
      else
        (case init env (binaryDataLoader m) of
           (Inl e, l) \<Rightarrow> (Inl e, m\<lparr>binaryDataLoader := l\<rparr>)
         | (Inr u, l) \<Rightarrow>
             (case getBaseData l of
                Inl e \<Rightarrow> (Inl e, m\<lparr>binaryDataLoader := l\<rparr>)
              | Inr bd \<Rightarrow>
                  (case getAllFeatures l of
                     Inl e \<Rightarrow> (Inl e, m\<lparr>binaryDataLoader := l\<rparr>)
                   | Inr fs \<Rightarrow>
                       (case derive_traits bd fs (display m) of
                          (Some e, d) \<Rightarrow> (Inl e, m\<lparr>binaryDataLoader := l, display := d\<rparr>)
                        | (None, d) \<Rightarrow>
                            if maxArguments env < length bd
                            then (Inl RangeError,
                                  m\<lparr>binaryDataLoader := l, display := d, BASE_DATA := []\<rparr>)
                            else (Inr True,
                                  m\<lparr>binaryDataLoader := l, display := derive_sections d,
                                    BASE_DATA := bd, isInitialized := True\<rparr>))))))"

section \<open>The sparse record, read as data\<close>

text \<open>
  The pairs a sparse feature record holds, in file order: \<open>uint32 nonZeroCount\<close>, then
  that many \<open>(uint32 cellIndex, float32 value)\<close>.
\<close>

fun read_pairs :: "ArrayBuffer \<Rightarrow> nat \<Rightarrow> nat \<Rightarrow> error + (nat \<times> number) list" where
  "read_pairs buffer offset 0 = Inr []"
| "read_pairs buffer offset (Suc k) =
     (case getUint32 buffer offset of
        Inl e \<Rightarrow> Inl e
      | Inr cellIndex \<Rightarrow>
          (case getFloat32 buffer (offset + 4) of
             Inl e \<Rightarrow> Inl e
           | Inr v \<Rightarrow>
               (case read_pairs buffer (offset + 8) k of
                  Inl e \<Rightarrow> Inl e
                | Inr ps \<Rightarrow> Inr ((unat cellIndex, v) # ps))))"

definition record_pairs :: "ArrayBuffer \<Rightarrow> error + (nat \<times> number) list" where
  "record_pairs buffer =
     (case getUint32 buffer 0 of
        Inl e \<Rightarrow> Inl e
      | Inr nonZeroCount \<Rightarrow> read_pairs buffer 4 (unat nonZeroCount))"

text \<open>
  The value a list of pairs records for cell \<open>i\<close>: that of the last pair with this
  index, zero when there is none; and the dense vector of \<open>n\<close> cells.
\<close>

definition recorded :: "(nat \<times> number) list \<Rightarrow> nat \<Rightarrow> number" where
  "recorded ps i = (case map_of (rev ps) i of None \<Rightarrow> Num 0 | Some v \<Rightarrow> v)"

definition dense :: "nat \<Rightarrow> (nat \<times> number) list \<Rightarrow> Float32Array" where
  "dense n ps = map (recorded ps) [0..<n]"

text \<open>
  Modelled from the spec: the encoder of a sparse feature record is not part of the
  sources. This is the little-endian layout of one \<open>uint32\<close> (and of one \<open>float32\<close>,
  as its bit pattern).
\<close>

definition u32_bytes :: "u32 \<Rightarrow> byte list" where
  "u32_bytes w = [ucast w, ucast (drop_bit 8 w), ucast (drop_bit 16 w), ucast (drop_bit 24 w)]"

text \<open>
  Modelled from the spec: one \<open>(uint32 cellIndex, float32 value)\<close> pair of a sparse
  feature record, whose encoder is not part of the sources.
\<close>

definition encode_pair :: "nat \<times> f32 \<Rightarrow> byte list" where
  "encode_pair p = u32_bytes (of_nat (fst p)) @ u32_bytes (snd p)"

text \<open>
  Modelled from the spec: the encoder of a sparse feature record, which is not part of
  the sources: \<open>uint32 nonZeroCount\<close>, then the pairs.
\<close>

definition encode_sparse :: "(nat \<times> f32) list \<Rightarrow> ArrayBuffer" where
  "encode_sparse ps = u32_bytes (of_nat (length ps)) @ concat (map encode_pair ps)"

section \<open>Histories\<close>

text \<open>
  What can happen to an initialised loader: a call of \<open>loadFeature\<close> runs up to its
  suspension point (\<open>Start\<close>); the continuation of a call for feature \<open>n\<close> that
  fetched path \<open>p\<close> runs with the response \<open>r\<close> (\<open>Resume\<close>); a caller writes into a
  vector it holds (\<open>Write\<close>). A history is any list of such events: calls may overlap
  in any way, and each response is whatever the byte source delivers at that moment.
\<close>

datatype event =
  Start string "string option"
| Resume string string "response option"
| Write addr nat number

fun step :: "event \<Rightarrow> loader \<Rightarrow> loader" where
  "step (Start n c) st = snd (loadFeature_start n c st)"
| "step (Resume n p r) st = snd (loadFeature_resume n p r st)"
| "step (Write a i v) st = caller_write a i v st"

fun run_events :: "event list \<Rightarrow> loader \<Rightarrow> loader" where
  "run_events [] st = st"
| "run_events (e # es) st = run_events es (step e st)"

fun is_write :: "event \<Rightarrow> bool" where
  "is_write (Write a i v) = True"
| "is_write e = False"

definition no_writes :: "event list \<Rightarrow> bool" where
  "no_writes es = (filter is_write es = [])"

text \<open>
  The pairs of the record that the response \<open>r\<close> brings for path \<open>p\<close>; None when the
  fetch fails or the buffer is too short for the record it announces.
\<close>

definition record_of :: "string \<Rightarrow> response option \<Rightarrow> (nat \<times> number) list option" where
  "record_of p r =
     (case fetchBinary_finish p r of
        Inl e \<Rightarrow> None
      | Inr b \<Rightarrow> (case record_pairs b of Inl e \<Rightarrow> None | Inr ps \<Rightarrow> Some ps))"

text \<open>
  For each feature name, the record of the latest continuation in the history that
  brought one for that name, starting from \<open>g\<close>.
\<close>

fun stored_after ::
  "event list \<Rightarrow> (string \<Rightarrow> (nat \<times> number) list option) \<Rightarrow> string \<Rightarrow> (nat \<times> number) list option" where
  "stored_after [] g = g"
| "stored_after (Resume n p r # es) g =
     stored_after es (case record_of p r of None \<Rightarrow> g | Some ps \<Rightarrow> g(n \<mapsto> ps))"
| "stored_after (e # es) g = stored_after es g"

definition stored :: "event list \<Rightarrow> string \<Rightarrow> (nat \<times> number) list option" where
  "stored es = stored_after es (\<lambda>n. None)"

text \<open>
  Two invariants of a history after a successful \<open>init\<close>. \<open>shaped\<close>: base data \<open>bd\<close> is
  loaded, every vector in the store has one entry per cell id, and every cached
  reference points into the store. \<open>holds_records\<close>: the cache holds, for each name,
  the dense vector of the record \<open>g\<close> gives for it, and nothing for the other names.
\<close>

definition shaped :: "base_data \<Rightarrow> loader \<Rightarrow> bool" where
  "shaped bd st \<longleftrightarrow>
     baseData st = Some bd \<and>
     (\<forall>a<length (heap st). length (heap st ! a) = length (cellIds bd)) \<and>
     (\<forall>n a. map_of (loadedFeatures st) n = Some a \<longrightarrow> a < length (heap st))"

definition holds_records ::
  "base_data \<Rightarrow> (string \<Rightarrow> (nat \<times> number) list option) \<Rightarrow> loader \<Rightarrow> bool" where
  "holds_records bd g st \<longleftrightarrow>
     (\<forall>n. case g n of
        None \<Rightarrow> map_of (loadedFeatures st) n = None
      | Some ps \<Rightarrow>
          (\<exists>a. map_of (loadedFeatures st) n = Some a \<and> a < length (heap st) \<and>
             heap st ! a = dense (length (cellIds bd)) ps))"

section \<open>A small data set\<close>

text \<open>
  Two cells \<open>c0\<close> and \<open>c1\<close>, and one gene \<open>X\<close> whose record holds the value 1.0 (the
  pattern \<open>0x3F800000\<close>) for cell 1. Every other url answers 404.
\<close>

definition ex_decode :: "byte list \<Rightarrow> string" where
  "ex_decode bs = map (\<lambda>b. char_of (unat b)) bs"

definition ex_metadata :: metadata where
  "ex_metadata =
     \<lparr>genes = Some \<lparr>total = 1, features = Some [''X'']\<rparr>,
      tfs = Some \<lparr>total = 0, features = None\<rparr>\<rparr>"

definition ex_ok :: "ArrayBuffer \<Rightarrow> response option" where
  "ex_ok b = Some \<lparr>ok = True, status = 200, arrayBuffer = b, json = JsonThrows\<rparr>"

definition ex_files :: "string \<Rightarrow> response option" where
  "ex_files url =
     (if url = ''./data/binary/base/cell_ids.bin''
        then ex_ok [2, 0, 0, 0, 2, 0, 0, 0, 0x63, 0x30, 2, 0, 0, 0, 0x63, 0x31]
      else if url = ''./data/binary/base/coordinates.bin''
        then ex_ok [2, 0, 0, 0, 0, 0, 0, 0, 0, 0, 0, 0, 0, 0, 0x80, 0x3F, 0, 0, 0, 0]
      else if url = ''./data/binary/base/sections.bin''
        then ex_ok [2, 0, 0, 0, 1, 0, 0, 0, 0x73, 1, 0, 0, 0, 0x73]
      else if url = ''./data/binary/base/celltypes.bin''
        then ex_ok [2, 0, 0, 0, 1, 0, 0, 0, 0x74, 1, 0, 0, 0, 0x74]
      else if url = ''./data/binary/genes/X.bin''
        then ex_ok [1, 0, 0, 0, 1, 0, 0, 0, 0, 0, 0x80, 0x3F]
      else Some \<lparr>ok = False, status = 404, arrayBuffer = [], json = JsonThrows\<rparr>)"

definition ex_fetch :: "string \<Rightarrow> response option" where
  "ex_fetch url =
     (if url = ''./data/binary/metadata.json''
        then Some \<lparr>ok = True, status = 200, arrayBuffer = [], json = JsonValue (Some ex_metadata)\<rparr>
      else ex_files url)"

definition ex_env :: env where
  "ex_env =
     \<lparr>fetch = ex_fetch, TextDecoder_decode = ex_decode, firstSettled = 0,
      maxArguments = 100\<rparr>"

definition ex_base :: base_data where
  "ex_base =
     \<lparr>cellIds = [''c0'', ''c1''], coordinates = [(Num 0, Num 0), (Num 0x3F800000, Num 0)],
      sections = [''s'', ''s''], celltypes = [''t'', ''t''],
      cells = [\<lparr>cell_id = ''c0'', cell_x = Num 0, cell_y = Num 0, cell_slice = Some ''s'',
                 cell_region = Some ''t''\<rparr>,
               \<lparr>cell_id = ''c1'', cell_x = Num 0x3F800000, cell_y = Num 0,
                 cell_slice = Some ''s'', cell_region = Some ''t''\<rparr>]\<rparr>"

text \<open>The loader after a successful \<open>init\<close> from \<open>ex_env\<close>.\<close>

definition ex_loader :: loader where
  "ex_loader =
     \<lparr>basePath = ''./data/binary'', metadata = Some ex_metadata, baseData = Some ex_base,
      loadedFeatures = [], heap = [],
      fetchLog = [''./data/binary/metadata.json'', ''./data/binary/base/cell_ids.bin'',
                  ''./data/binary/base/coordinates.bin'', ''./data/binary/base/sections.bin'',
                  ''./data/binary/base/celltypes.bin'']\<rparr>"

text \<open>The loader after \<open>loadFeature("X")\<close> on \<open>ex_loader\<close>.\<close>

definition ex_loaded :: loader where
  "ex_loaded =
     \<lparr>basePath = ''./data/binary'', metadata = Some ex_metadata, baseData = Some ex_base,
      loadedFeatures = [(''X'', 0)], heap = [[Num 0, Num 0x3F800000]],
      fetchLog = [''./data/binary/metadata.json'', ''./data/binary/base/cell_ids.bin'',
                  ''./data/binary/base/coordinates.bin'', ''./data/binary/base/sections.bin'',
                  ''./data/binary/base/celltypes.bin'', ''./data/binary/genes/X.bin'']\<rparr>"

text \<open>
  A byte source that is down; one whose \<open>metadata.json\<close> is the empty object \<open>{}\<close>, with
  the loader its \<open>init\<close> leaves; and the module before and after \<open>initializeData\<close>.
\<close>

definition ex_offline :: env where
  "ex_offline =
     \<lparr>fetch = (\<lambda>url. None), TextDecoder_decode = ex_decode, firstSettled = 0,
      maxArguments = 100\<rparr>"

definition ex_bare_metadata :: metadata where
  "ex_bare_metadata = \<lparr>genes = None, tfs = None\<rparr>"

definition ex_bare :: env where
  "ex_bare =
     \<lparr>fetch = (\<lambda>url. if url = ''./data/binary/metadata.json''
                      then Some \<lparr>ok = True, status = 200, arrayBuffer = [],
                                   json = JsonValue (Some ex_bare_metadata)\<rparr>
                      else ex_files url),
      TextDecoder_decode = ex_decode, firstSettled = 0, maxArguments = 100\<rparr>"

definition ex_bare_loader :: loader where
  "ex_bare_loader = ex_loader\<lparr>metadata := Some ex_bare_metadata\<rparr>"

definition ex_module :: "unit module" where
  "ex_module =
     \<lparr>binaryDataLoader = BinaryDataLoader ''./data/binary'', isInitialized = False,
      BASE_DATA = [], display = ()\<rparr>"

definition ex_module_ready :: "unit module" where
  "ex_module_ready =
     \<lparr>binaryDataLoader = ex_loader, isInitialized = True, BASE_DATA = cells ex_base,
      display = ()\<rparr>"

text \<open>A history on \<open>ex_loader\<close>: one load of \<open>X\<close> under the default category.\<close>

definition ex_history :: "event list" where
  "ex_history =
     [Start ''X'' None,
      Resume ''X'' ''./data/binary/genes/X.bin'' (ex_fetch ''./data/binary/genes/X.bin'')]"

section \<open>Little-endian words\<close>

lemma u32_roundtrip:
  "u32_of_bytes (ucast w) (ucast (drop_bit 8 w)) (ucast (drop_bit 16 w)) (ucast (drop_bit 24 w)) = w"
  unfolding u32_of_bytes_def
proof (rule bit_word_eqI)
  fix n assume n: "n < LENGTH(32)"
  have c: "n < 8 \<or> (8 \<le> n \<and> n < 16) \<or> (16 \<le> n \<and> n < 24) \<or> 24 \<le> n" by arith
  from c n show "bit (ucast (ucast w :: byte) OR push_bit 8 (ucast (ucast (drop_bit 8 w) :: byte)) OR
       push_bit 16 (ucast (ucast (drop_bit 16 w) :: byte)) OR
       push_bit 24 (ucast (ucast (drop_bit 24 w) :: byte)) :: u32) n = bit w n"
    by (auto simp: bit_simps)
qed

lemma length_u32_bytes: "length (u32_bytes w) = 4"
  by (simp add: u32_bytes_def)

lemma getUint32_u32_bytes: "getUint32 (pre @ u32_bytes w @ rest) (length pre) = Inr w"
  by (simp add: getUint32_def u32_bytes_def nth_append u32_roundtrip)

section \<open>The sparse decoder and the pairs of a record\<close>

lemma fill_loop_pairs:
  "read_pairs buffer offset k = Inr ps \<Longrightarrow>
   \<exists>arr'. fill_loop buffer offset k arr = Inr arr' \<and> length arr' = length arr \<and>
     (\<forall>i<length arr. arr' ! i = (case map_of (rev ps) i of None \<Rightarrow> arr ! i | Some v \<Rightarrow> v))"
proof (induction k arbitrary: offset arr ps)
  case 0
  then show ?case by simp
next
  case (Suc k)
  from Suc.prems obtain ci v ps' where
    ci: "getUint32 buffer offset = Inr ci" and v: "getFloat32 buffer (offset + 4) = Inr v"
    and ps': "read_pairs buffer (offset + 8) k = Inr ps'" and ps: "ps = (unat ci, v) # ps'"
    by (auto split: sum.splits)
  let ?arr1 = "if unat ci < length arr then arr[unat ci := v] else arr"
  from Suc.IH [OF ps', of ?arr1] obtain arr' where
    f: "fill_loop buffer (offset + 8) k ?arr1 = Inr arr'" and l: "length arr' = length ?arr1"
    and c: "\<forall>i<length ?arr1. arr' ! i = (case map_of (rev ps') i of None \<Rightarrow> ?arr1 ! i | Some w \<Rightarrow> w)"
    by blast
  have "fill_loop buffer offset (Suc k) arr = Inr arr'"
    using ci v f by simp
  moreover have "length arr' = length arr" using l by simp
  moreover have "\<forall>i<length arr. arr' ! i = (case map_of (rev ps) i of None \<Rightarrow> arr ! i | Some w \<Rightarrow> w)"
  proof (intro allI impI)
    fix i assume i: "i < length arr"
    then have "arr' ! i = (case map_of (rev ps') i of None \<Rightarrow> ?arr1 ! i | Some w \<Rightarrow> w)"
      using c by simp
    then show "arr' ! i = (case map_of (rev ps) i of None \<Rightarrow> arr ! i | Some w \<Rightarrow> w)"
      using i by (auto simp: ps map_add_def split: option.splits)
  qed
  ultimately show ?case by blast
qed

lemma fill_loop_error:
  "read_pairs buffer offset k = Inl e \<Longrightarrow> fill_loop buffer offset k arr = Inl e"
proof (induction k arbitrary: offset arr)
  case 0
  then show ?case by simp
next
  case (Suc k)
  then show ?case by (auto split: sum.splits)
qed

lemma fill_loop_dense:
  assumes "read_pairs buffer offset k = Inr ps"
  shows "fill_loop buffer offset k (replicate n (Num 0)) = Inr (dense n ps)"
proof -
  from fill_loop_pairs [OF assms, of "replicate n (Num 0)"] obtain arr' where
    f: "fill_loop buffer offset k (replicate n (Num 0)) = Inr arr'" and l: "length arr' = n"
    and c: "\<forall>i<n. arr' ! i =
              (case map_of (rev ps) i of None \<Rightarrow> replicate n (Num 0) ! i | Some v \<Rightarrow> v)"
    by auto
  have "arr' = dense n ps"
    by (rule nth_equalityI) (auto simp: l dense_def recorded_def c split: option.splits)
  with f show ?thesis by simp
qed

lemma parseFeatureBinary_pairs:
  assumes "baseData st = Some bd"
  shows "parseFeatureBinary st buffer =
     (case record_pairs buffer of Inl e \<Rightarrow> Inl e | Inr ps \<Rightarrow> Inr (dense (length (cellIds bd)) ps))"
  using assms
  by (auto simp: parseFeatureBinary_def record_pairs_def fill_loop_dense fill_loop_error
      split: sum.splits)

lemma recorded_filter:
  "i < n \<Longrightarrow> recorded (filter (\<lambda>p. fst p < n) ps) i = recorded ps i"
proof (induction ps rule: rev_induct)
  case Nil
  then show ?case by simp
next
  case (snoc p ps)
  then show ?case by (cases p) (auto simp: recorded_def)
qed

lemma dense_filter: "dense n (filter (\<lambda>p. fst p < n) ps) = dense n ps"
  by (simp add: dense_def recorded_filter)

lemma length_dense: "length (dense n ps) = n"
  by (simp add: dense_def)

lemma getFloat32_u32_bytes_at:
  "off = length pre \<Longrightarrow> getFloat32 (pre @ u32_bytes w @ rest) off = Inr (number_of_bits w)"
  by (simp add: getFloat32_def getUint32_u32_bytes)

lemma read_pairs_encode:
  assumes "\<forall>p\<in>set ps. fst p < 2 ^ 32"
  shows "read_pairs (pre @ concat (map encode_pair ps) @ post) (length pre) (length ps)
         = Inr (map (\<lambda>p. (fst p, number_of_bits (snd p))) ps)"
  using assms
proof (induction ps arbitrary: pre)
  case Nil
  then show ?case by simp
next
  case (Cons p ps)
  obtain i v where p: "p = (i, v)" by (cases p)
  have i: "unat (of_nat i :: u32) = i"
    using Cons.prems by (simp add: p unat_of_nat)
  let ?rest = "concat (map encode_pair ps) @ post"
  have b: "pre @ concat (map encode_pair (p # ps)) @ post
        = pre @ u32_bytes (of_nat i) @ (u32_bytes v @ ?rest)"
    by (simp add: p encode_pair_def)
  have b2: "pre @ concat (map encode_pair (p # ps)) @ post
        = (pre @ u32_bytes (of_nat i)) @ u32_bytes v @ ?rest"
    by (simp add: p encode_pair_def)
  have b3: "pre @ concat (map encode_pair (p # ps)) @ post
        = (pre @ u32_bytes (of_nat i) @ u32_bytes v) @ ?rest"
    by (simp add: p encode_pair_def)
  have g1: "getUint32 (pre @ concat (map encode_pair (p # ps)) @ post) (length pre) = Inr (of_nat i)"
    unfolding b by (rule getUint32_u32_bytes)
  have g2: "getFloat32 (pre @ concat (map encode_pair (p # ps)) @ post) (length pre + 4)
            = Inr (number_of_bits v)"
    unfolding b2 by (rule getFloat32_u32_bytes_at) (simp add: length_u32_bytes)
  have "read_pairs ((pre @ u32_bytes (of_nat i) @ u32_bytes v) @ ?rest)
          (length (pre @ u32_bytes (of_nat i) @ u32_bytes v)) (length ps)
        = Inr (map (\<lambda>p. (fst p, number_of_bits (snd p))) ps)"
    using Cons.prems by (intro Cons.IH) simp
  then have g3: "read_pairs (pre @ concat (map encode_pair (p # ps)) @ post) (length pre + 8)
                   (length ps) = Inr (map (\<lambda>p. (fst p, number_of_bits (snd p))) ps)"
    unfolding b3 by (simp add: length_u32_bytes)
  show ?case
    using g1 g2 g3 i by (simp add: p)
qed

lemma record_pairs_encode:
  assumes "length ps < 2 ^ 32" and "\<forall>p\<in>set ps. fst p < 2 ^ 32"
  shows "record_pairs (encode_sparse ps) = Inr (map (\<lambda>p. (fst p, number_of_bits (snd p))) ps)"
proof -
  have c: "getUint32 (encode_sparse ps) 0 = Inr (of_nat (length ps))"
    using getUint32_u32_bytes [of "[]"] by (simp add: encode_sparse_def)
  have u: "unat (of_nat (length ps) :: u32) = length ps"
    using assms(1) by (simp add: unat_of_nat)
  have "read_pairs (u32_bytes (of_nat (length ps)) @ concat (map encode_pair ps) @ [])
          (length (u32_bytes (of_nat (length ps) :: u32))) (length ps)
        = Inr (map (\<lambda>p. (fst p, number_of_bits (snd p))) ps)"
    by (rule read_pairs_encode [OF assms(2)])
  then have "read_pairs (encode_sparse ps) 4 (length ps)
             = Inr (map (\<lambda>p. (fst p, number_of_bits (snd p))) ps)"
    by (simp add: encode_sparse_def length_u32_bytes)
  with c u show ?thesis by (simp add: record_pairs_def)
qed

lemma map_of_map_snd:
  "map_of (map (\<lambda>p. (fst p, f (snd p))) ps) i = map_option f (map_of ps i)"
  by (induction ps) auto

lemma distinct_bounded_length:
  assumes "distinct (map fst ps)" and "\<forall>p\<in>set ps. fst p < (n::nat)"
  shows "length ps \<le> n"
proof -
  have "length ps = card (set (map fst ps))"
    using assms(1) by (metis distinct_card length_map)
  also have "\<dots> \<le> card {..<n}"
    using assms(2) by (intro card_mono) auto
  finally show ?thesis by simp
qed

lemma map_of_rev_distinct:
  "distinct (map fst ps) \<Longrightarrow> map_of (rev ps) = map_of ps"
proof (induction ps)
  case Nil
  then show ?case by simp
next
  case (Cons p ps)
  then have n: "map_of ps (fst p) = None"
    by (simp add: map_of_eq_None_iff)
  show ?case
  proof (rule ext)
    fix x
    show "map_of (rev (p # ps)) x = map_of (p # ps) x"
      using Cons n by (cases p) (auto simp: map_add_def split: option.splits)
  qed
qed

section \<open>Cache hits and misses\<close>

lemma loadFeature_hit:
  "map_of (loadedFeatures st) n = Some a \<Longrightarrow> loadFeature env n c st = (Inr a, st)"
  by (simp add: loadFeature_def loadFeature_start_def)

lemma loadFeature_miss:
  "map_of (loadedFeatures st) n = None \<Longrightarrow>
   loadFeature env n c st =
     loadFeature_resume n (featurePath st c n) (fetch env (featurePath st c n))
       (st\<lparr>fetchLog := fetchLog st @ [featurePath st c n]\<rparr>)"
  by (simp add: loadFeature_def loadFeature_start_def Let_def)

lemma try_decode_fetchLog [simp]:
  "try_decode p r (st\<lparr>fetchLog := l\<rparr>) = try_decode p r st"
  by (simp add: try_decode_def parseFeatureBinary_def split: sum.splits)

lemma featurePath_basePath:
  "basePath st' = basePath st \<Longrightarrow> featurePath st' c n = featurePath st c n"
  by (simp add: featurePath_def)

lemma loadFeature_basePath: "basePath (snd (loadFeature env n c st)) = basePath st"
  by (cases "map_of (loadedFeatures st) n")
     (simp_all add: loadFeature_hit loadFeature_miss loadFeature_resume_def Let_def
           split: sum.splits option.splits)

lemma loadFeature_baseData: "baseData (snd (loadFeature env n c st)) = baseData st"
  by (cases "map_of (loadedFeatures st) n")
     (simp_all add: loadFeature_hit loadFeature_miss loadFeature_resume_def Let_def
           split: sum.splits option.splits)

lemma loadFeature_resume_fetchLog:
  "fetchLog (snd (loadFeature_resume n p r st)) = fetchLog st"
  by (simp add: loadFeature_resume_def Let_def split: sum.splits option.splits)

lemma loadFeature_resume_basePath:
  "basePath (snd (loadFeature_resume n p r st)) = basePath st"
  by (simp add: loadFeature_resume_def Let_def split: sum.splits option.splits)

lemma loadFeature_resume_fail:
  "try_decode p r st = Inl e \<Longrightarrow>
   loadedFeatures (snd (loadFeature_resume n p r st)) = loadedFeatures st"
  by (simp add: loadFeature_resume_def split: option.splits)

lemma loadFeature_miss_fetchLog:
  assumes "map_of (loadedFeatures st) n = None"
  shows "fetchLog (snd (loadFeature env n c st)) = fetchLog st @ [featurePath st c n]"
  by (simp add: loadFeature_miss [OF assms] loadFeature_resume_fetchLog)

lemma loadFeature_resume_ok:
  "try_decode p r st = Inr v \<Longrightarrow>
   loadFeature_resume n p r st =
     (Inr (length (heap st)),
      st\<lparr>heap := heap st @ [v],
         loadedFeatures := AList.update n (length (heap st)) (loadedFeatures st)\<rparr>)"
  by (simp add: loadFeature_resume_def Let_def)

lemma loadFeature_resume_fallback:
  "try_decode p r st = Inl e \<Longrightarrow> baseData st = Some bd \<Longrightarrow>
   loadFeature_resume n p r st =
     (Inr (length (heap st)),
      st\<lparr>heap := heap st @ [replicate (length (cellIds bd)) (Num 0)]\<rparr>)"
  by (simp add: loadFeature_resume_def)

lemma loadFeature_keeps_entry:
  assumes "map_of (loadedFeatures st) n = Some a"
  shows "map_of (loadedFeatures (snd (loadFeature env m c st))) n = Some a"
proof (cases "map_of (loadedFeatures st) m")
  case (Some b)
  with assms show ?thesis by (simp add: loadFeature_hit)
next
  case None
  with assms have ne: "m \<noteq> n" by auto
  let ?p = "featurePath st c m"
  let ?st1 = "st\<lparr>fetchLog := fetchLog st @ [?p]\<rparr>"
  show ?thesis
  proof (cases "try_decode ?p (fetch env ?p) ?st1")
    case (Inl e)
    from loadFeature_resume_fail [OF Inl, of m] assms show ?thesis
      by (simp add: loadFeature_miss [OF None])
  next
    case (Inr v)
    from loadFeature_resume_ok [OF Inr, of m] assms ne show ?thesis
      by (simp add: loadFeature_miss [OF None] update_conv')
  qed
qed

lemma run_loads_keeps_entry:
  "map_of (loadedFeatures st) n = Some a \<Longrightarrow>
   map_of (loadedFeatures (run_loads env reqs st)) n = Some a"
proof (induction reqs arbitrary: st)
  case Nil
  then show ?case by simp
next
  case (Cons q reqs)
  obtain m c where q: "q = (m, c)" by (cases q)
  from Cons.IH [OF loadFeature_keeps_entry [OF Cons.prems, of env m c]]
  show ?case by (simp add: q)
qed

lemma issue_calls_miss:
  "map_of (loadedFeatures st) n = None \<Longrightarrow>
   issue_calls (replicate k (n, c)) st =
     (replicate k (Awaiting n (featurePath st c n)),
      st\<lparr>fetchLog := fetchLog st @ replicate k (featurePath st c n)\<rparr>)"
proof (induction k arbitrary: st)
  case 0
  then show ?case by simp
next
  case (Suc k)
  let ?st1 = "st\<lparr>fetchLog := fetchLog st @ [featurePath st c n]\<rparr>"
  have m: "map_of (loadedFeatures ?st1) n = None" using Suc.prems by simp
  have p: "featurePath ?st1 c n = featurePath st c n" by (simp add: featurePath_def)
  show ?case
    using Suc.prems Suc.IH [OF m]
    by (simp add: loadFeature_start_def Let_def p replicate_app_Cons_same)
qed

lemma count_list_replicate: "count_list (replicate k x) x = k"
  by (induction k) simp_all

lemma loader_fetchLog_update: "fetchLog (st\<lparr>fetchLog := l\<rparr>) = l"
  by simp

section \<open>Initialisation builds one cell per cell id\<close>

lemma push_loop_result:
  "push_loop f is acc = Inr cs \<Longrightarrow>
   length cs = length acc + length is \<and> take (length acc) cs = acc \<and>
   (\<forall>j<length is. f (is ! j) = Inr (cs ! (length acc + j)))"
proof (induction "is" arbitrary: acc)
  case Nil
  then show ?case by simp
next
  case (Cons i "is")
  from Cons.prems obtain c where c: "f i = Inr c" and r: "push_loop f is (acc @ [c]) = Inr cs"
    by (auto split: sum.splits)
  from Cons.IH [OF r] have l: "length cs = length acc + 1 + length is"
    and t: "take (length acc + 1) cs = acc @ [c]"
    and n: "\<forall>j<length is. f (is ! j) = Inr (cs ! (length acc + 1 + j))"
    by simp_all
  have "take (length acc) (take (length acc + 1) cs) = take (length acc) (acc @ [c])"
    by (simp only: t)
  then have t1: "take (length acc) cs = acc"
    by simp
  have "take (length acc + 1) cs ! length acc = (acc @ [c]) ! length acc"
    by (simp only: t)
  then have t2: "cs ! length acc = c"
    by simp
  have "\<forall>j<length (i # is). f ((i # is) ! j) = Inr (cs ! (length acc + j))"
  proof (intro allI impI)
    fix j assume "j < length (i # is)"
    then show "f ((i # is) ! j) = Inr (cs ! (length acc + j))"
      using c t2 n by (cases j) simp_all
  qed
  with l t1 show ?case by simp
qed

lemma sum_bind_Inr:
  "sum_bind r f = Inr v \<Longrightarrow> \<exists>u. r = Inr u \<and> f u = Inr v"
  by (cases r) (simp_all add: sum_bind_def)

lemma loadBaseData_ok:
  assumes "loadBaseData env st = (Inr bd, st')"
  shows "length (cells bd) = length (cellIds bd) \<and>
         (\<forall>i<length (cellIds bd).
            make_cell (cellIds bd) (coordinates bd) (sections bd) (celltypes bd) i
              = Inr (cells bd ! i))"
proof -
  from assms obtain ids coords secs types cs where
    p: "push_loop (make_cell ids coords secs types) [0..<length ids] [] = Inr cs"
    and bd: "bd = \<lparr>cellIds = ids, coordinates = coords, sections = secs, celltypes = types,
                   cells = cs\<rparr>"
    unfolding loadBaseData_def Let_def
    by (auto dest!: sum_bind_Inr split: if_splits)
  from push_loop_result [OF p] show ?thesis
    by (simp add: bd)
qed

lemma loadBaseData_state:
  "snd (loadBaseData env st) =
     st\<lparr>fetchLog := fetchLog st @ [basePath st @ ''/base/cell_ids.bin'',
          basePath st @ ''/base/coordinates.bin'', basePath st @ ''/base/sections.bin'',
          basePath st @ ''/base/celltypes.bin'']\<rparr>"
  by (simp add: loadBaseData_def Let_def)

lemma init_loads_keeps:
  assumes "init_loads env st = (r, st')"
  shows "baseData st' = baseData st \<and> basePath st' = basePath st \<and>
         loadedFeatures st' = loadedFeatures st \<and> heap st' = heap st \<and>
         length (fetchLog st) < length (fetchLog st')"
proof -
  let ?u = "basePath st @ ''/metadata.json''"
  let ?st1 = "st\<lparr>fetchLog := fetchLog st @ [?u]\<rparr>"
  have s: "st' = snd (init_loads env st)" using assms by simp
  show ?thesis
  proof (cases "loadJSON_finish ?u (fetch env ?u)")
    case (Inl e)
    then have "snd (init_loads env st) = ?st1"
      by (simp add: init_loads_def Let_def)
    then show ?thesis unfolding s by simp
  next
    case (Inr m)
    then have "snd (init_loads env st) = snd (loadBaseData env (?st1\<lparr>metadata := m\<rparr>))"
      by (simp add: init_loads_def Let_def)
    then show ?thesis unfolding s by (simp add: loadBaseData_state)
  qed
qed

lemma init_loads_ok:
  assumes "init_loads env st = (Inr bd, st')"
  shows "length (cells bd) = length (cellIds bd) \<and>
         (\<forall>i<length (cellIds bd).
            make_cell (cellIds bd) (coordinates bd) (sections bd) (celltypes bd) i
              = Inr (cells bd ! i))"
proof -
  from assms obtain st1 st2 where "loadBaseData env st1 = (Inr bd, st2)"
    by (auto simp: init_loads_def Let_def split: sum.splits)
  then show ?thesis by (rule loadBaseData_ok)
qed

lemma init_fetches:
  "length (fetchLog st) < length (fetchLog (snd (init env st)))"
proof -
  obtain r st2 where l: "init_loads env st = (r, st2)" by (cases "init_loads env st")
  from init_loads_keeps [OF l] have "length (fetchLog st) < length (fetchLog st2)" by simp
  then show ?thesis
    by (simp add: init_def l Let_def split: sum.splits)
qed

lemma init_fail_in_loads:
  assumes "init_loads env st = (Inl e, st')"
  shows "init env st = (Inl e, st') \<and> baseData st' = baseData st"
  using assms init_loads_keeps [OF assms] by (simp add: init_def)

lemma init_ok:
  assumes "init env st = (Inr r, st')"
  shows "\<exists>bd. baseData st' = Some bd \<and> length (cells bd) = length (cellIds bd) \<and>
           (\<forall>i<length (cellIds bd).
              make_cell (cellIds bd) (coordinates bd) (sections bd) (celltypes bd) i
                = Inr (cells bd ! i)) \<and>
           basePath st' = basePath st \<and> loadedFeatures st' = loadedFeatures st \<and>
           heap st' = heap st"
proof -
  from assms obtain bd st2 where
    lb: "init_loads env st = (Inr bd, st2)" and st': "st' = st2\<lparr>baseData := Some bd\<rparr>"
    by (auto simp: init_def Let_def split: sum.splits prod.splits)
  from init_loads_keeps [OF lb] init_loads_ok [OF lb] show ?thesis
    by (simp add: st')
qed

section \<open>Histories keep the shape of the store\<close>

lemma loadFeature_start_fields:
  "baseData (snd (loadFeature_start n c st)) = baseData st \<and>
   basePath (snd (loadFeature_start n c st)) = basePath st \<and>
   heap (snd (loadFeature_start n c st)) = heap st \<and>
   loadedFeatures (snd (loadFeature_start n c st)) = loadedFeatures st"
  by (simp add: loadFeature_start_def Let_def split: option.splits)

lemma try_decode_some:
  assumes "baseData st = Some bd" and "record_of p r = Some ps"
  shows "try_decode p r st = Inr (dense (length (cellIds bd)) ps)"
  using assms
  by (auto simp: try_decode_def record_of_def parseFeatureBinary_pairs split: sum.splits)

lemma try_decode_none:
  assumes "baseData st = Some bd" and "record_of p r = None"
  shows "\<exists>e. try_decode p r st = Inl e"
  using assms
  by (auto simp: try_decode_def record_of_def parseFeatureBinary_pairs split: sum.splits)

lemma loadFeature_resume_some:
  assumes "baseData st = Some bd" and "record_of p r = Some ps"
  shows "loadFeature_resume n p r st =
     (Inr (length (heap st)),
      st\<lparr>heap := heap st @ [dense (length (cellIds bd)) ps],
         loadedFeatures := AList.update n (length (heap st)) (loadedFeatures st)\<rparr>)"
  by (rule loadFeature_resume_ok [OF try_decode_some [OF assms]])

lemma loadFeature_resume_none:
  assumes "baseData st = Some bd" and "record_of p r = None"
  shows "loadFeature_resume n p r st =
     (Inr (length (heap st)),
      st\<lparr>heap := heap st @ [replicate (length (cellIds bd)) (Num 0)]\<rparr>)"
proof -
  from try_decode_none [OF assms] obtain e where "try_decode p r st = Inl e" by blast
  from loadFeature_resume_fallback [OF this assms(1)] show ?thesis .
qed

lemma shaped_resume:
  assumes "shaped bd st"
  shows "shaped bd (snd (loadFeature_resume n p r st))"
proof -
  from assms have bd: "baseData st = Some bd"
    and h: "\<forall>a<length (heap st). length (heap st ! a) = length (cellIds bd)"
    and c: "\<forall>n a. map_of (loadedFeatures st) n = Some a \<longrightarrow> a < length (heap st)"
    by (simp_all add: shaped_def)
  show ?thesis
  proof (cases "record_of p r")
    case None
    show ?thesis
      unfolding loadFeature_resume_none [OF bd None] shaped_def
      using bd h c by (auto simp: nth_append less_Suc_eq)
  next
    case (Some ps)
    show ?thesis
      unfolding loadFeature_resume_some [OF bd Some] shaped_def
      using bd h c by (auto simp: nth_append less_Suc_eq length_dense update_conv')
  qed
qed

lemma shaped_step:
  assumes "shaped bd st"
  shows "shaped bd (step e st)"
proof (cases e)
  case (Start n c)
  with assms loadFeature_start_fields [of n c st] show ?thesis
    by (simp add: shaped_def)
next
  case (Resume n p r)
  with shaped_resume [OF assms] show ?thesis by simp
next
  case (Write a i v)
  from assms have h: "\<forall>b<length (heap st). length (heap st ! b) = length (cellIds bd)"
    by (simp add: shaped_def)
  have "\<forall>b<length (heap st).
      length ((heap st)[a := (heap st ! a)[i := v]] ! b) = length (cellIds bd)"
  proof (intro allI impI)
    fix b assume b: "b < length (heap st)"
    show "length ((heap st)[a := (heap st ! a)[i := v]] ! b) = length (cellIds bd)"
    proof (cases "a = b")
      case True
      with b h show ?thesis by simp
    next
      case False
      with b h show ?thesis by simp
    qed
  qed
  with assms Write show ?thesis
    by (simp add: shaped_def caller_write_def)
qed

lemma shaped_run:
  "shaped bd st \<Longrightarrow> shaped bd (run_events es st)"
proof (induction es arbitrary: st)
  case Nil
  then show ?case by simp
next
  case (Cons e es)
  from Cons.IH [OF shaped_step [OF Cons.prems]] show ?case by simp
qed

lemma holds_records_resume_none:
  assumes "shaped bd st" and "holds_records bd g st" and "record_of p r = None"
  shows "holds_records bd g (snd (loadFeature_resume n p r st))"
proof -
  from assms(1) have bd: "baseData st = Some bd" by (simp add: shaped_def)
  show ?thesis
    unfolding loadFeature_resume_none [OF bd assms(3)] holds_records_def
  proof (intro allI)
    fix m
    from assms(2) have "case g m of
        None \<Rightarrow> map_of (loadedFeatures st) m = None
      | Some ps \<Rightarrow>
          (\<exists>a. map_of (loadedFeatures st) m = Some a \<and> a < length (heap st) \<and>
             heap st ! a = dense (length (cellIds bd)) ps)"
      by (simp add: holds_records_def)
    then show "case g m of
        None \<Rightarrow> map_of (loadedFeatures (snd (Inr (length (heap st)),
                   st\<lparr>heap := heap st @ [replicate (length (cellIds bd)) (Num 0)]\<rparr>))) m = None
      | Some ps \<Rightarrow>
          (\<exists>a. map_of (loadedFeatures (snd (Inr (length (heap st)),
                   st\<lparr>heap := heap st @ [replicate (length (cellIds bd)) (Num 0)]\<rparr>))) m = Some a \<and>
             a < length (heap (snd (Inr (length (heap st)),
                   st\<lparr>heap := heap st @ [replicate (length (cellIds bd)) (Num 0)]\<rparr>))) \<and>
             heap (snd (Inr (length (heap st)),
                   st\<lparr>heap := heap st @ [replicate (length (cellIds bd)) (Num 0)]\<rparr>)) ! a
               = dense (length (cellIds bd)) ps)"
      by (cases "g m") (auto simp: nth_append)
  qed
qed

lemma holds_records_resume_some:
  assumes "shaped bd st" and "holds_records bd g st" and "record_of p r = Some ps"
  shows "holds_records bd (g(n \<mapsto> ps)) (snd (loadFeature_resume n p r st))"
proof -
  from assms(1) have bd: "baseData st = Some bd" by (simp add: shaped_def)
  let ?st' = "st\<lparr>heap := heap st @ [dense (length (cellIds bd)) ps],
         loadedFeatures := AList.update n (length (heap st)) (loadedFeatures st)\<rparr>"
  have s: "snd (loadFeature_resume n p r st) = ?st'"
    by (simp add: loadFeature_resume_some [OF bd assms(3)])
  show ?thesis
    unfolding s holds_records_def
  proof (intro allI)
    fix m
    from assms(2) have old: "case g m of
        None \<Rightarrow> map_of (loadedFeatures st) m = None
      | Some qs \<Rightarrow>
          (\<exists>a. map_of (loadedFeatures st) m = Some a \<and> a < length (heap st) \<and>
             heap st ! a = dense (length (cellIds bd)) qs)"
      by (simp add: holds_records_def)
    show "case (g(n \<mapsto> ps)) m of
        None \<Rightarrow> map_of (loadedFeatures ?st') m = None
      | Some qs \<Rightarrow>
          (\<exists>a. map_of (loadedFeatures ?st') m = Some a \<and> a < length (heap ?st') \<and>
             heap ?st' ! a = dense (length (cellIds bd)) qs)"
    proof (cases "m = n")
      case True
      then show ?thesis by (simp add: update_conv')
    next
      case False
      with old show ?thesis
        by (cases "g m") (auto simp: update_conv' nth_append)
    qed
  qed
qed

lemma holds_records_start:
  assumes "holds_records bd g st"
  shows "holds_records bd g (snd (loadFeature_start n c st))"
  using assms
  by (simp add: holds_records_def loadFeature_start_fields cong: option.case_cong)

lemma no_writes_Cons: "no_writes (e # es) \<longleftrightarrow> \<not> is_write e \<and> no_writes es"
  by (simp add: no_writes_def)

lemma holds_records_run:
  "shaped bd st \<Longrightarrow> holds_records bd g st \<Longrightarrow> no_writes es \<Longrightarrow>
   holds_records bd (stored_after es g) (run_events es st)"
proof (induction es arbitrary: st g)
  case Nil
  then show ?case by simp
next
  case (Cons e es)
  from Cons.prems(3) have nw: "\<not> is_write e" and nws: "no_writes es"
    by (simp_all add: no_writes_Cons)
  have sh: "shaped bd (step e st)" by (rule shaped_step [OF Cons.prems(1)])
  have run: "run_events (e # es) st = run_events es (step e st)" by simp
  show ?case
  proof (cases e)
    case (Start n c)
    have g: "stored_after (e # es) g = stored_after es g" by (simp add: Start)
    have "holds_records bd g (step e st)"
      using holds_records_start [OF Cons.prems(2), of n c] by (simp add: Start)
    from Cons.IH [OF sh this nws] show ?thesis unfolding g run .
  next
    case (Resume n p r)
    show ?thesis
    proof (cases "record_of p r")
      case None
      have g: "stored_after (e # es) g = stored_after es g" by (simp add: Resume None)
      have "holds_records bd g (step e st)"
        using holds_records_resume_none [OF Cons.prems(1,2) None, of n] by (simp add: Resume)
      from Cons.IH [OF sh this nws] show ?thesis unfolding g run .
    next
      case (Some ps)
      have g: "stored_after (e # es) g = stored_after es (g(n \<mapsto> ps))"
        by (simp add: Resume Some)
      have "holds_records bd (g(n \<mapsto> ps)) (step e st)"
        using holds_records_resume_some [OF Cons.prems(1,2) Some, of n] by (simp add: Resume)
      from Cons.IH [OF sh this nws] show ?thesis unfolding g run .
    qed
  next
    case (Write a i v)
    with nw show ?thesis by simp
  qed
qed

lemma step_baseData: "baseData (step e st) = baseData st"
proof (cases e)
  case (Start n c)
  then show ?thesis by (simp add: loadFeature_start_fields)
next
  case (Resume n p r)
  then show ?thesis
    by (simp add: loadFeature_resume_def Let_def split: sum.splits option.splits)
next
  case (Write a i v)
  then show ?thesis by (simp add: caller_write_def)
qed

lemma run_events_baseData: "baseData (run_events es st) = baseData st"
  by (induction es arbitrary: st) (simp_all add: step_baseData)

lemma init_shaped:
  assumes "init env0 (BinaryDataLoader bp) = (Inr r, st0)"
  shows "\<exists>bd. shaped bd st0 \<and> holds_records bd (\<lambda>n. None) st0 \<and>
           length (cells bd) = length (cellIds bd)"
proof -
  from init_ok [OF assms] obtain bd where "baseData st0 = Some bd"
    and "length (cells bd) = length (cellIds bd)"
    and "loadedFeatures st0 = loadedFeatures (BinaryDataLoader bp)"
    and "heap st0 = heap (BinaryDataLoader bp)"
    by blast
  then have "shaped bd st0 \<and> holds_records bd (\<lambda>n. None) st0 \<and>
           length (cells bd) = length (cellIds bd)"
    by (simp add: shaped_def holds_records_def BinaryDataLoader_def)
  then show ?thesis by blast
qed

lemma dense_nth: "i < n \<Longrightarrow> dense n ps ! i = recorded ps i"
  by (simp add: dense_def)

section \<open>The small data set, evaluated\<close>

lemma ex_init: "init ex_env (BinaryDataLoader ''./data/binary'') = (Inr True, ex_loader)"
  by code_simp

lemma ex_init_bare:
  "init ex_bare (BinaryDataLoader ''./data/binary'') = (Inl TypeError, ex_bare_loader)"
  by code_simp

lemma ex_load_X: "loadFeature ex_env ''X'' None ex_loader = (Inr 0, ex_loaded)"
  by code_simp

lemma ex_baseData: "baseData ex_loader = Some ex_base"
  by (simp add: ex_loader_def)

lemma ex_cellCount: "length (cellIds ex_base) = 2"
  by (simp add: ex_base_def)

lemma ex_cells: "length (cells ex_base) = 2"
  by (simp add: ex_base_def)

lemma ex_path: "featurePath ex_loader (Some ''genes'') ''X'' = ''./data/binary/genes/X.bin''"
  by (simp add: featurePath_def ex_loader_def)

lemma ex_log_clean: "count_list (fetchLog ex_loader) ''./data/binary/genes/X.bin'' = 0"
  by (simp add: ex_loader_def)

lemma ex_miss: "map_of (loadedFeatures ex_loader) ''X'' = None"
  by (simp add: ex_loader_def)

lemma ex_initializeData:
  "initializeData (\<lambda>bd fs d. (None, d)) (\<lambda>d. d) ex_env ex_module = (Inr True, ex_module_ready)"
  by code_simp

lemma ex_record_two:
  "record_pairs [2, 0, 0, 0, 5, 0, 0, 0, 0, 0, 0x80, 0x3F, 1, 0, 0, 0, 0, 0, 0x80, 0x3F]
     = Inr [(5, Num 0x3F800000), (1, Num 0x3F800000)]"
  by code_simp

lemma ex_dense:
  "dense 2 (filter (\<lambda>p. fst p < 2) [(5, Num 0x3F800000), (1, Num 0x3F800000)])
     = [Num 0, Num 0x3F800000]"
  by code_simp

lemma ex_path_Y: "featurePath ex_loader None ''Y'' = ''./data/binary/genes/Y.bin''"
  by (simp add: featurePath_def ex_loader_def)

lemma ex_fetch_Y:
  "fetchBinary_finish ''./data/binary/genes/Y.bin'' (fetch ex_env ''./data/binary/genes/Y.bin'')
     = Inl (FetchError ''./data/binary/genes/Y.bin'' 404)"
  by (simp add: fetchBinary_finish_def ex_env_def ex_fetch_def ex_files_def)

lemma ex_miss_Y: "map_of (loadedFeatures ex_loader) ''Y'' = None"
  by (simp add: ex_loader_def)

lemma ex_init_loads_offline:
  "init_loads ex_offline (BinaryDataLoader ''./data/binary'')
     = (Inl NetworkError,
        (BinaryDataLoader ''./data/binary'')\<lparr>fetchLog := [''./data/binary/metadata.json'']\<rparr>)"
  by (simp add: init_loads_def BinaryDataLoader_def ex_offline_def loadJSON_finish_def)

lemma ex_run: "run_events ex_history ex_loader = ex_loaded"
  by code_simp

lemma ex_no_writes: "no_writes ex_history"
  by (simp add: no_writes_def ex_history_def)

lemma ex_stored: "stored ex_history ''X'' = Some [(1, Num 0x3F800000)]"
  by code_simp

lemma ex_hit: "loadFeature ex_env ''X'' (Some ''tfs'') ex_loaded = (Inr 0, ex_loaded)"
  by (simp add: loadFeature_hit ex_loaded_def)

lemma ex_getBaseData: "getBaseData ex_loaded = Inr (cells ex_base)"
  by (simp add: getBaseData_def ex_loaded_def)

lemma ex_record_Y:
  "record_of ''./data/binary/genes/Y.bin'' (ex_fetch ''./data/binary/genes/Y.bin'') = None"
  by code_simp

lemma ex_resume_Y:
  "loadFeature_resume ''Y'' ''./data/binary/genes/Y.bin'' (ex_fetch ''./data/binary/genes/Y.bin'')
     ex_loaded
   = (Inr 1, ex_loaded\<lparr>heap := [[Num 0, Num 0x3F800000], [Num 0, Num 0]]\<rparr>)"
  by code_simp

section \<open>The claims\<close>

subsection \<open>C1\<close>

text \<open>
  Claim C1 says that N concurrent \<open>loadFeature\<close> calls for one key that is not yet
  cached cause exactly one fetch. \<open>loadFeature\<close> keeps no record of a load in flight:
  every call that finds the key absent calls \<open>fetch\<close> before it suspends. Fifty calls
  for gene \<open>X\<close>, issued on the initialised loader before any response arrives, put the
  url of \<open>genes/X.bin\<close> fifty times into the fetch log.
\<close>

theorem concurrent_loads_fetch_each_time:
  "count_list (fetchLog (snd (issue_calls (replicate 50 (''X'', Some ''genes'')) ex_loader)))
     ''./data/binary/genes/X.bin'' = 50"
  by (simp only: issue_calls_miss [OF ex_miss] ex_path snd_conv loader_fetchLog_update
      count_list_append count_list_replicate ex_log_clean add_0)

subsection \<open>C2\<close>

text \<open>
  Claim C2 says that a sparse record with a pair whose cell index is not below the cell
  count is rejected. The decoder does not reject it: the loop guards the store with
  \<open>cellIndex < featureArray.length\<close> and goes on. What holds, with base data loaded:
  decoding fails exactly when the buffer is too short for its header or for the pairs it
  announces, and otherwise yields the dense vector of the pairs whose index is in range,
  the others having no effect; the result always has exactly one entry per cell, so
  nothing is written outside the array.
\<close>

theorem parseFeatureBinary_skips_out_of_range:
  assumes "baseData st = Some bd"
  shows "parseFeatureBinary st buffer =
           (case record_pairs buffer of
              Inl e \<Rightarrow> Inl e
            | Inr ps \<Rightarrow>
                Inr (dense (length (cellIds bd)) (filter (\<lambda>p. fst p < length (cellIds bd)) ps))) \<and>
         (\<forall>v. parseFeatureBinary st buffer = Inr v \<longrightarrow> length v = length (cellIds bd))"
  by (auto simp: parseFeatureBinary_pairs [OF assms] dense_filter length_dense split: sum.splits)

theorem parseFeatureBinary_skips_out_of_range_witness:
  "baseData ex_loader = Some ex_base \<and>
   parseFeatureBinary ex_loader
     [2, 0, 0, 0, 5, 0, 0, 0, 0, 0, 0x80, 0x3F, 1, 0, 0, 0, 0, 0, 0x80, 0x3F]
     = Inr [Num 0, Num 0x3F800000]"
proof -
  from parseFeatureBinary_skips_out_of_range [OF ex_baseData,
      of "[2, 0, 0, 0, 5, 0, 0, 0, 0, 0, 0x80, 0x3F, 1, 0, 0, 0, 0, 0, 0x80, 0x3F]"]
  show ?thesis
    by (simp only: ex_baseData ex_record_two ex_cellCount ex_dense sum.case simp_thms)
qed

theorem out_of_range_index_accepted:
  "record_pairs [1, 0, 0, 0, 5, 0, 0, 0, 0, 0, 0x80, 0x3F] = Inr [(5, Num 0x3F800000)] \<and>
   length (cellIds ex_base) = 2 \<and>
   parseFeatureBinary ex_loader [1, 0, 0, 0, 5, 0, 0, 0, 0, 0, 0x80, 0x3F] = Inr [Num 0, Num 0]"
  by code_simp

subsection \<open>C3\<close>

text \<open>
  Claim C3: \<open>initializeData\<close> is idempotent. After a call that succeeded, a second call
  (whatever the byte source then answers) returns the same value and leaves the whole
  module state as it is: the fetch log does not grow, and the base data, read through
  the loader or through \<open>BASE_DATA\<close>, is the same. The guard is the one of
  \<open>initializeData\<close>; \<open>init\<close> itself issues its fetches at every call
  (\<open>init_fetches\<close>).
\<close>

theorem initializeData_idempotent:
  assumes "initializeData derive_traits derive_sections env m = (Inr r, m')"
  shows "initializeData derive_traits' derive_sections' env' m' = (Inr r, m') \<and>
         fetchLog (binaryDataLoader (snd (initializeData derive_traits' derive_sections' env' m')))
           = fetchLog (binaryDataLoader m') \<and>
         getBaseData (binaryDataLoader (snd (initializeData derive_traits' derive_sections' env' m')))
           = getBaseData (binaryDataLoader m') \<and>
         BASE_DATA (snd (initializeData derive_traits' derive_sections' env' m')) = BASE_DATA m'"
proof -
  have "isInitialized m' \<and> r"
    using assms
    by (auto simp: initializeData_def split: if_splits prod.splits sum.splits option.splits)
  then have "initializeData derive_traits' derive_sections' env' m' = (Inr r, m')"
    by (simp add: initializeData_def)
  then show ?thesis by simp
qed

theorem initializeData_idempotent_witness:
  "initializeData (\<lambda>bd fs d. (None, d)) (\<lambda>d. d) ex_env ex_module = (Inr True, ex_module_ready) \<and>
   initializeData (\<lambda>bd fs d. (None, d)) (\<lambda>d. d) ex_offline ex_module_ready
     = (Inr True, ex_module_ready) \<and>
   fetchLog (binaryDataLoader
       (snd (initializeData (\<lambda>bd fs d. (None, d)) (\<lambda>d. d) ex_offline ex_module_ready)))
     = fetchLog ex_loader"
proof -
  from initializeData_idempotent [OF ex_initializeData, of "\<lambda>bd fs d. (None, d)" "\<lambda>d. d" ex_offline]
    ex_initializeData
  show ?thesis by (simp add: ex_module_ready_def)
qed

subsection \<open>C4\<close>

text \<open>
  Claim C4 says that a caller gets a copy or a read-only view of a cached vector. The
  loader hands out the reference it keeps in the cache. What holds for a resident
  feature: \<open>loadFeature\<close> returns the cached reference and changes nothing; after the
  caller has written \<open>v\<close> at index \<open>i\<close> through that reference, the next \<open>loadFeature\<close>
  returns the same reference, and the vector behind it holds \<open>v\<close> at \<open>i\<close>.
\<close>

theorem loadFeature_returns_cache_reference:
  assumes "map_of (loadedFeatures st) n = Some a"
    and "a < length (heap st)"
    and "i < length (heap st ! a)"
  shows "loadFeature env n c st = (Inr a, st) \<and>
         loadFeature env' n c' (caller_write a i v st) = (Inr a, caller_write a i v st) \<and>
         heap (caller_write a i v st) ! a ! i = v"
  using assms by (simp add: loadFeature_hit caller_write_def)

theorem loadFeature_returns_cache_reference_witness:
  "map_of (loadedFeatures ex_loaded) ''X'' = Some 0 \<and> 0 < length (heap ex_loaded) \<and>
   1 < length (heap ex_loaded ! 0) \<and>
   loadFeature ex_env ''X'' None ex_loaded = (Inr 0, ex_loaded) \<and>
   loadFeature ex_env ''X'' None (caller_write 0 1 (Num 0x40E00000) ex_loaded)
     = (Inr 0, caller_write 0 1 (Num 0x40E00000) ex_loaded) \<and>
   heap (caller_write 0 1 (Num 0x40E00000) ex_loaded) ! 0 ! 1 = Num 0x40E00000"
proof -
  have h1: "map_of (loadedFeatures ex_loaded) ''X'' = Some 0"
    and h2: "0 < length (heap ex_loaded)" and h3: "1 < length (heap ex_loaded ! 0)"
    by (simp_all add: ex_loaded_def)
  from loadFeature_returns_cache_reference [OF h1 h2 h3, of ex_env None ex_env None "Num 0x40E00000"]
    h1 h2 h3
  show ?thesis by simp
qed

theorem caller_mutation_reaches_cache:
  "fst (loadFeature ex_env ''X'' None ex_loader) = Inr 0 \<and>
   heap (snd (loadFeature ex_env ''X'' None ex_loader)) ! 0 = [Num 0, Num 0x3F800000] \<and>
   fst (loadFeature ex_env ''X'' None
         (caller_write 0 0 (Num 0x40E00000) (snd (loadFeature ex_env ''X'' None ex_loader))))
     = Inr 0 \<and>
   heap (snd (loadFeature ex_env ''X'' None
         (caller_write 0 0 (Num 0x40E00000) (snd (loadFeature ex_env ''X'' None ex_loader))))) ! 0
     = [Num 0x40E00000, Num 0x3F800000]"
  by (simp add: ex_load_X) (simp add: ex_loaded_def caller_write_def loadFeature_hit)

subsection \<open>C5\<close>

text \<open>
  Claim C5: with base data loaded, a feature that is not cached and whose fetch fails
  does not raise; \<open>loadFeature\<close> returns a reference to a vector of zeros with one
  entry per cell id.
\<close>

theorem loadFeature_fetch_failure_zero_vector:
  assumes "baseData st = Some bd"
    and "map_of (loadedFeatures st) n = None"
    and "fetchBinary_finish (featurePath st c n) (fetch env (featurePath st c n)) = Inl e"
  shows "\<exists>a st'. loadFeature env n c st = (Inr a, st') \<and> a < length (heap st') \<and>
           heap st' ! a = replicate (length (cellIds bd)) (Num 0)"
  using assms
  by (simp add: loadFeature_miss loadFeature_resume_def try_decode_def)

theorem loadFeature_fetch_failure_zero_vector_witness:
  "baseData ex_loader = Some ex_base \<and> map_of (loadedFeatures ex_loader) ''Y'' = None \<and>
   fetchBinary_finish (featurePath ex_loader None ''Y'')
       (fetch ex_env (featurePath ex_loader None ''Y''))
     = Inl (FetchError ''./data/binary/genes/Y.bin'' 404) \<and>
   (\<exists>a st'. loadFeature ex_env ''Y'' None ex_loader = (Inr a, st') \<and> a < length (heap st') \<and>
      heap st' ! a = replicate (length (cellIds ex_base)) (Num 0))"
proof -
  have h: "fetchBinary_finish (featurePath ex_loader None ''Y'')
       (fetch ex_env (featurePath ex_loader None ''Y''))
     = Inl (FetchError ''./data/binary/genes/Y.bin'' 404)"
    by (simp only: ex_path_Y ex_fetch_Y)
  from loadFeature_fetch_failure_zero_vector [OF ex_baseData ex_miss_Y h] ex_baseData ex_miss_Y h
  show ?thesis by blast
qed

subsection \<open>C6\<close>

text \<open>
  Claim C6: when the fetch or the decoding of an uncached feature fails, the cache is
  left as it was, and the next \<open>loadFeature\<close> for the same name issues a fetch again.
\<close>

theorem loadFeature_failure_not_cached:
  assumes "map_of (loadedFeatures st) n = None"
    and "try_decode (featurePath st c n) (fetch env (featurePath st c n)) st = Inl e"
    and "loadFeature env n c st = (r, st')"
  shows "loadedFeatures st' = loadedFeatures st \<and>
         fetchLog (snd (loadFeature env' n c' st')) = fetchLog st' @ [featurePath st c' n]"
proof -
  have s: "st' = snd (loadFeature env n c st)"
    using assms(3) by simp
  have c: "loadedFeatures st' = loadedFeatures st"
    unfolding s loadFeature_miss [OF assms(1)]
    by (rule trans [OF loadFeature_resume_fail]) (simp_all add: assms(2))
  have b: "basePath st' = basePath st"
    unfolding s by (rule loadFeature_basePath)
  have m: "map_of (loadedFeatures st') n = None"
    using assms(1) c by simp
  show ?thesis
    using c by (simp add: loadFeature_miss_fetchLog [OF m] featurePath_basePath [OF b])
qed

theorem loadFeature_failure_not_cached_witness:
  "map_of (loadedFeatures ex_loader) ''Y'' = None \<and>
   try_decode (featurePath ex_loader None ''Y'') (fetch ex_env (featurePath ex_loader None ''Y''))
       ex_loader
     = Inl (FetchError ''./data/binary/genes/Y.bin'' 404) \<and>
   loadedFeatures (snd (loadFeature ex_env ''Y'' None ex_loader)) = loadedFeatures ex_loader \<and>
   fetchLog (snd (loadFeature ex_env ''Y'' None (snd (loadFeature ex_env ''Y'' None ex_loader))))
     = fetchLog (snd (loadFeature ex_env ''Y'' None ex_loader)) @ [''./data/binary/genes/Y.bin'']"
proof -
  have h: "try_decode (featurePath ex_loader None ''Y'')
       (fetch ex_env (featurePath ex_loader None ''Y'')) ex_loader
     = Inl (FetchError ''./data/binary/genes/Y.bin'' 404)"
    by (simp add: try_decode_def ex_path_Y ex_fetch_Y)
  have p: "loadFeature ex_env ''Y'' None ex_loader
     = (fst (loadFeature ex_env ''Y'' None ex_loader), snd (loadFeature ex_env ''Y'' None ex_loader))"
    by simp
  from loadFeature_failure_not_cached [OF ex_miss_Y h p, of ex_env None] ex_miss_Y h
  show ?thesis by (simp add: ex_path_Y)
qed

subsection \<open>C7\<close>

text \<open>
  Claim C7 says that \<open>getBaseData\<close> fails whenever no \<open>init\<close> has succeeded yet. The
  loader has no check of its own: \<open>getBaseData\<close> reads \<open>this.baseData.baseData\<close>, which
  throws a TypeError exactly while \<open>baseData\<close> is \<open>null\<close>, and \<open>init\<close> stores the base
  data before its last statement, which can still throw. What holds: \<open>getBaseData\<close>
  fails on a new loader, and still after an \<open>init\<close> that failed in its loads (the
  fetch or decoding of \<open>metadata.json\<close> or of a base table, or the zipping of the
  tables); after an \<open>init\<close> that succeeded it returns the cell sequence, one cell per
  cell id, built from the four tables by position. That sequence is the loader's own
  array, neither copied nor frozen: no later \<open>loadFeature\<close> call or write into a feature
  vector changes what \<open>getBaseData\<close> returns, but an assignment by a caller into the
  array it received does.
\<close>

theorem getBaseData_before_and_after_init:
  "getBaseData (BinaryDataLoader bp) = Inl TypeError \<and>
   (getBaseData st1 = Inl TypeError \<and> init_loads env1 st1 = (Inl e, st1') \<longrightarrow>
      init env1 st1 = (Inl e, st1') \<and> getBaseData st1' = Inl TypeError) \<and>
   (init env2 st2 = (Inr r, st2') \<longrightarrow>
      (\<exists>cs. getBaseData st2' = Inr cs \<and> getBaseData (run_events es st2') = Inr cs \<and>
         (\<exists>bd. baseData st2' = Some bd \<and> length cs = length (cellIds bd) \<and>
            (\<forall>i<length cs. cs ! i =
               \<lparr>cell_id = cellIds bd ! i, cell_x = fst (coordinates bd ! i),
                cell_y = snd (coordinates bd ! i), cell_slice = nth_opt (sections bd) i,
                cell_region = nth_opt (celltypes bd) i\<rparr>)))) \<and>
   (getBaseData st3 = Inr cs3 \<and> j < length cs3 \<longrightarrow>
      getBaseData (caller_assign_cell j c st3) = Inr (cs3[j := c]))"
proof (intro conjI impI)
  show "getBaseData (BinaryDataLoader bp) = Inl TypeError"
    by (simp add: getBaseData_def BinaryDataLoader_def)
next
  assume "getBaseData st3 = Inr cs3 \<and> j < length cs3"
  then show "getBaseData (caller_assign_cell j c st3) = Inr (cs3[j := c])"
    by (auto simp: getBaseData_def caller_assign_cell_def split: option.splits)
next
  assume a: "getBaseData st1 = Inl TypeError \<and> init_loads env1 st1 = (Inl e, st1')"
  then have il: "init_loads env1 st1 = (Inl e, st1')" by simp
  from init_fail_in_loads [OF il] show "init env1 st1 = (Inl e, st1')" by simp
  from init_fail_in_loads [OF il] have "baseData st1' = baseData st1" by simp
  with a show "getBaseData st1' = Inl TypeError" by (simp add: getBaseData_def)
next
  assume "init env2 st2 = (Inr r, st2')"
  from init_ok [OF this] obtain bd where bd: "baseData st2' = Some bd"
    and l: "length (cells bd) = length (cellIds bd)"
    and m: "\<forall>i<length (cellIds bd).
              make_cell (cellIds bd) (coordinates bd) (sections bd) (celltypes bd) i
                = Inr (cells bd ! i)"
    by blast
  have "\<forall>i<length (cells bd). cells bd ! i =
               \<lparr>cell_id = cellIds bd ! i, cell_x = fst (coordinates bd ! i),
                cell_y = snd (coordinates bd ! i), cell_slice = nth_opt (sections bd) i,
                cell_region = nth_opt (celltypes bd) i\<rparr>"
  proof (intro allI impI)
    fix i assume "i < length (cells bd)"
    with l m have "make_cell (cellIds bd) (coordinates bd) (sections bd) (celltypes bd) i
                = Inr (cells bd ! i)" by simp
    then show "cells bd ! i =
               \<lparr>cell_id = cellIds bd ! i, cell_x = fst (coordinates bd ! i),
                cell_y = snd (coordinates bd ! i), cell_slice = nth_opt (sections bd) i,
                cell_region = nth_opt (celltypes bd) i\<rparr>"
      by (simp add: make_cell_def split: if_splits)
  qed
  with bd l show "\<exists>cs. getBaseData st2' = Inr cs \<and> getBaseData (run_events es st2') = Inr cs \<and>
         (\<exists>bd. baseData st2' = Some bd \<and> length cs = length (cellIds bd) \<and>
            (\<forall>i<length cs. cs ! i =
               \<lparr>cell_id = cellIds bd ! i, cell_x = fst (coordinates bd ! i),
                cell_y = snd (coordinates bd ! i), cell_slice = nth_opt (sections bd) i,
                cell_region = nth_opt (celltypes bd) i\<rparr>))"
    by (simp add: getBaseData_def run_events_baseData)
qed

theorem getBaseData_before_and_after_init_witness:
  "getBaseData (BinaryDataLoader ''./data/binary'') = Inl TypeError \<and>
   init_loads ex_offline (BinaryDataLoader ''./data/binary'')
     = (Inl NetworkError,
        (BinaryDataLoader ''./data/binary'')\<lparr>fetchLog := [''./data/binary/metadata.json'']\<rparr>) \<and>
   init ex_offline (BinaryDataLoader ''./data/binary'')
     = (Inl NetworkError,
        (BinaryDataLoader ''./data/binary'')\<lparr>fetchLog := [''./data/binary/metadata.json'']\<rparr>) \<and>
   getBaseData ((BinaryDataLoader ''./data/binary'')\<lparr>fetchLog := [''./data/binary/metadata.json'']\<rparr>)
     = Inl TypeError \<and>
   init ex_env (BinaryDataLoader ''./data/binary'') = (Inr True, ex_loader) \<and>
   getBaseData ex_loader = Inr (cells ex_base) \<and>
   getBaseData (run_events ex_history ex_loader) = Inr (cells ex_base) \<and>
   0 < length (cells ex_base) \<and>
   getBaseData (caller_assign_cell 0 (cells ex_base ! 1) ex_loader)
     = Inr ((cells ex_base)[0 := cells ex_base ! 1])"
proof -
  have g: "getBaseData ex_loader = Inr (cells ex_base)"
    by (simp add: getBaseData_def ex_loader_def)
  have l: "0 < length (cells ex_base)"
    by (simp add: ex_cells)
  from getBaseData_before_and_after_init [of "''./data/binary''"
      "BinaryDataLoader ''./data/binary''" ex_offline NetworkError
      "(BinaryDataLoader ''./data/binary'')\<lparr>fetchLog := [''./data/binary/metadata.json'']\<rparr>"
      ex_env "BinaryDataLoader ''./data/binary''" True ex_loader ex_history
      ex_loader "cells ex_base" 0 "cells ex_base ! 1"]
    ex_init ex_init_loads_offline g l
  show ?thesis by simp
qed

theorem failed_init_leaves_base_data:
  "init ex_bare (BinaryDataLoader ''./data/binary'') = (Inl TypeError, ex_bare_loader) \<and>
   getBaseData ex_bare_loader = Inr (cells ex_base)"
  by (simp add: ex_init_bare) (simp add: getBaseData_def ex_bare_loader_def ex_loader_def)

subsection \<open>C8\<close>

text \<open>
  Claim C8 says that every vector \<open>loadFeature\<close> returns has the length of the base
  data and holds, at entry \<open>i\<close>, the value recorded for the cell at position \<open>i\<close>. The
  second part fails once a caller has written into a vector it received, since the
  cache hands out its own vectors. What holds, after a successful \<open>init\<close> of a new
  loader and any history (calls overlapping in any way, any responses, caller writes):
  every call returns a vector with one entry per cell of \<open>getBaseData\<close>; the
  continuation of a call that fetched returns the vector whose entry \<open>i\<close> is what the
  record it received records for cell \<open>i\<close>, and zero everywhere when the fetch or the
  decoding failed; and in a history without caller writes, a call that runs to
  completion returns, on a cache hit, the vector whose entry \<open>i\<close> is what the record of
  the latest storing load of that name records for cell \<open>i\<close>.
\<close>

theorem loadFeature_vector_aligned:
  assumes "init env0 (BinaryDataLoader bp) = (Inr r, st0)"
    and "st = run_events es st0"
  shows "\<exists>cs. getBaseData st = Inr cs \<and>
     (\<forall>res st'. loadFeature_resume m p rsp st = (res, st') \<longrightarrow>
        getBaseData st' = Inr cs \<and>
        (\<exists>a. res = Inr a \<and> a < length (heap st') \<and> length (heap st' ! a) = length cs \<and>
           (\<forall>i<length cs. heap st' ! a ! i =
              (case record_of p rsp of None \<Rightarrow> Num 0 | Some ps \<Rightarrow> recorded ps i)))) \<and>
     (\<forall>res st'. loadFeature env n c st = (res, st') \<longrightarrow>
        getBaseData st' = Inr cs \<and>
        (\<exists>a. res = Inr a \<and> a < length (heap st') \<and> length (heap st' ! a) = length cs \<and>
           (no_writes es \<longrightarrow>
              (\<forall>i<length cs. heap st' ! a ! i =
                 (case stored es n of
                    Some ps \<Rightarrow> recorded ps i
                  | None \<Rightarrow>
                      (case record_of (featurePath st c n) (fetch env (featurePath st c n)) of
                         None \<Rightarrow> Num 0
                       | Some ps \<Rightarrow> recorded ps i))))))"
proof -
  from init_shaped [OF assms(1)] obtain bd where sh0: "shaped bd st0"
    and hr0: "holds_records bd (\<lambda>n. None) st0"
    and len: "length (cells bd) = length (cellIds bd)"
    by blast
  have sh: "shaped bd st"
    unfolding assms(2) by (rule shaped_run [OF sh0])
  then have bd: "baseData st = Some bd"
    and hl: "\<forall>a<length (heap st). length (heap st ! a) = length (cellIds bd)"
    and ca: "\<forall>n a. map_of (loadedFeatures st) n = Some a \<longrightarrow> a < length (heap st)"
    by (simp_all add: shaped_def)
  have gb: "getBaseData st = Inr (cells bd)"
    by (simp add: getBaseData_def bd)
  have resume: "getBaseData st' = Inr (cells bd) \<and>
        (\<exists>a. res = Inr a \<and> a < length (heap st') \<and> length (heap st' ! a) = length (cells bd) \<and>
           (\<forall>i<length (cells bd). heap st' ! a ! i =
              (case record_of q rq of None \<Rightarrow> Num 0 | Some ps \<Rightarrow> recorded ps i)))"
    if r: "loadFeature_resume k q rq s = (res, st')" and sb: "baseData s = Some bd"
    for k q rq s res st'
  proof (cases "record_of q rq")
    case None
    from r loadFeature_resume_none [OF sb None, of k]
    have res: "res = Inr (length (heap s))"
      and st': "st' = s\<lparr>heap := heap s @ [replicate (length (cellIds bd)) (Num 0)]\<rparr>"
      by simp_all
    show ?thesis
      by (simp add: res st' getBaseData_def sb None len)
  next
    case (Some ps)
    from r loadFeature_resume_some [OF sb Some, of k]
    have res: "res = Inr (length (heap s))"
      and st': "st' = s\<lparr>heap := heap s @ [dense (length (cellIds bd)) ps],
         loadedFeatures := AList.update k (length (heap s)) (loadedFeatures s)\<rparr>"
      by simp_all
    show ?thesis
      by (simp add: res st' getBaseData_def sb Some len length_dense dense_nth)
  qed
  have A: "\<forall>res st'. loadFeature_resume m p rsp st = (res, st') \<longrightarrow>
        getBaseData st' = Inr (cells bd) \<and>
        (\<exists>a. res = Inr a \<and> a < length (heap st') \<and> length (heap st' ! a) = length (cells bd) \<and>
           (\<forall>i<length (cells bd). heap st' ! a ! i =
              (case record_of p rsp of None \<Rightarrow> Num 0 | Some ps \<Rightarrow> recorded ps i)))"
    using resume [OF _ bd] by blast
  have B: "\<forall>res st'. loadFeature env n c st = (res, st') \<longrightarrow>
        getBaseData st' = Inr (cells bd) \<and>
        (\<exists>a. res = Inr a \<and> a < length (heap st') \<and> length (heap st' ! a) = length (cells bd) \<and>
           (no_writes es \<longrightarrow>
              (\<forall>i<length (cells bd). heap st' ! a ! i =
                 (case stored es n of
                    Some ps \<Rightarrow> recorded ps i
                  | None \<Rightarrow>
                      (case record_of (featurePath st c n) (fetch env (featurePath st c n)) of
                         None \<Rightarrow> Num 0
                       | Some ps \<Rightarrow> recorded ps i)))))"
  proof (intro allI impI)
    fix res st' assume lf: "loadFeature env n c st = (res, st')"
    have hr: "holds_records bd (stored es) st" if "no_writes es"
      unfolding assms(2) stored_def by (rule holds_records_run [OF sh0 hr0 that])
    show "getBaseData st' = Inr (cells bd) \<and>
        (\<exists>a. res = Inr a \<and> a < length (heap st') \<and> length (heap st' ! a) = length (cells bd) \<and>
           (no_writes es \<longrightarrow>
              (\<forall>i<length (cells bd). heap st' ! a ! i =
                 (case stored es n of
                    Some ps \<Rightarrow> recorded ps i
                  | None \<Rightarrow>
                      (case record_of (featurePath st c n) (fetch env (featurePath st c n)) of
                         None \<Rightarrow> Num 0
                       | Some ps \<Rightarrow> recorded ps i)))))"
    proof (cases "map_of (loadedFeatures st) n")
      case (Some b)
      from lf have res: "res = Inr b" and st': "st' = st"
        by (simp_all add: loadFeature_hit [OF Some])
      from ca hl Some have b: "b < length (heap st)"
        and lb: "length (heap st ! b) = length (cells bd)"
        by (simp_all add: len)
      have "\<forall>i<length (cells bd). heap st ! b ! i =
                 (case stored es n of
                    Some ps \<Rightarrow> recorded ps i
                  | None \<Rightarrow>
                      (case record_of (featurePath st c n) (fetch env (featurePath st c n)) of
                         None \<Rightarrow> Num 0
                       | Some ps \<Rightarrow> recorded ps i))"
        if nw: "no_writes es"
      proof -
        from hr [OF nw] have h: "case stored es n of
            None \<Rightarrow> map_of (loadedFeatures st) n = None
          | Some ps \<Rightarrow>
              (\<exists>a. map_of (loadedFeatures st) n = Some a \<and> a < length (heap st) \<and>
                 heap st ! a = dense (length (cellIds bd)) ps)"
          by (simp add: holds_records_def)
        show ?thesis
        proof (cases "stored es n")
          case None
          with h Some show ?thesis by simp
        next
          case (Some ps)
          with h \<open>map_of (loadedFeatures st) n = Some b\<close>
          have "heap st ! b = dense (length (cellIds bd)) ps" by auto
          then show ?thesis by (simp add: Some len dense_nth)
        qed
      qed
      with b lb show ?thesis by (simp add: res st' gb)
    next
      case None
      let ?p = "featurePath st c n"
      let ?st1 = "st\<lparr>fetchLog := fetchLog st @ [?p]\<rparr>"
      have r: "loadFeature_resume n ?p (fetch env ?p) ?st1 = (res, st')"
        using lf by (simp add: loadFeature_miss [OF None])
      have sb: "baseData ?st1 = Some bd" using bd by simp
      have st: "stored es n = None" if nw: "no_writes es"
      proof -
        from hr [OF nw] have h: "case stored es n of
            None \<Rightarrow> map_of (loadedFeatures st) n = None
          | Some ps \<Rightarrow>
              (\<exists>a. map_of (loadedFeatures st) n = Some a \<and> a < length (heap st) \<and>
                 heap st ! a = dense (length (cellIds bd)) ps)"
          by (simp add: holds_records_def)
        with None show ?thesis by (cases "stored es n") auto
      qed
      from resume [OF r sb] st show ?thesis by auto
    qed
  qed
  from gb A B show ?thesis by blast
qed

theorem loadFeature_vector_aligned_witness:
  "init ex_env (BinaryDataLoader ''./data/binary'') = (Inr True, ex_loader) \<and>
   ex_loaded = run_events ex_history ex_loader \<and> no_writes ex_history \<and>
   getBaseData ex_loaded = Inr (cells ex_base) \<and>
   loadFeature_resume ''Y'' ''./data/binary/genes/Y.bin'' (ex_fetch ''./data/binary/genes/Y.bin'')
     ex_loaded
   = (Inr 1, ex_loaded\<lparr>heap := [[Num 0, Num 0x3F800000], [Num 0, Num 0]]\<rparr>) \<and>
   heap (ex_loaded\<lparr>heap := [[Num 0, Num 0x3F800000], [Num 0, Num 0]]\<rparr>) ! 1 ! 1 = Num 0 \<and>
   loadFeature ex_env ''X'' (Some ''tfs'') ex_loaded = (Inr 0, ex_loaded) \<and>
   length (heap ex_loaded ! 0) = length (cells ex_base) \<and>
   heap ex_loaded ! 0 ! 1 = recorded [(1, Num 0x3F800000)] 1"
proof -
  note run = ex_run [symmetric]
  from loadFeature_vector_aligned [OF ex_init run,
      where n = "''X''" and c = "Some ''tfs''" and env = ex_env and m = "''Y''"
        and p = "''./data/binary/genes/Y.bin''"
        and rsp = "ex_fetch ''./data/binary/genes/Y.bin''"]
  obtain cs where gb: "getBaseData ex_loaded = Inr cs"
    and A: "\<forall>res st'. loadFeature_resume ''Y'' ''./data/binary/genes/Y.bin''
              (ex_fetch ''./data/binary/genes/Y.bin'') ex_loaded = (res, st') \<longrightarrow>
        getBaseData st' = Inr cs \<and>
        (\<exists>a. res = Inr a \<and> a < length (heap st') \<and> length (heap st' ! a) = length cs \<and>
           (\<forall>i<length cs. heap st' ! a ! i =
              (case record_of ''./data/binary/genes/Y.bin''
                      (ex_fetch ''./data/binary/genes/Y.bin'') of
                 None \<Rightarrow> Num 0 | Some ps \<Rightarrow> recorded ps i)))"
    and B: "\<forall>res st'. loadFeature ex_env ''X'' (Some ''tfs'') ex_loaded = (res, st') \<longrightarrow>
        getBaseData st' = Inr cs \<and>
        (\<exists>a. res = Inr a \<and> a < length (heap st') \<and> length (heap st' ! a) = length cs \<and>
           (no_writes ex_history \<longrightarrow>
              (\<forall>i<length cs. heap st' ! a ! i =
                 (case stored ex_history ''X'' of
                    Some ps \<Rightarrow> recorded ps i
                  | None \<Rightarrow>
                      (case record_of (featurePath ex_loaded (Some ''tfs'') ''X'')
                              (fetch ex_env (featurePath ex_loaded (Some ''tfs'') ''X'')) of
                         None \<Rightarrow> Num 0
                       | Some ps \<Rightarrow> recorded ps i)))))"
    by (elim exE conjE) (rule that, assumption+)
  from gb have cs: "cs = cells ex_base" by (simp add: ex_getBaseData)
  from A [rule_format, OF ex_resume_Y] obtain a where
    "Inr 1 = (Inr a :: error + addr)"
    and "\<forall>i<length cs. heap (ex_loaded\<lparr>heap := [[Num 0, Num 0x3F800000], [Num 0, Num 0]]\<rparr>) ! a ! i
           = (case record_of ''./data/binary/genes/Y.bin''
                     (ex_fetch ''./data/binary/genes/Y.bin'') of
                None \<Rightarrow> Num 0 | Some ps \<Rightarrow> recorded ps i)"
    by blast
  then have y: "heap (ex_loaded\<lparr>heap := [[Num 0, Num 0x3F800000], [Num 0, Num 0]]\<rparr>) ! 1 ! 1 = Num 0"
    by (simp add: cs ex_cells ex_record_Y)
  from B [rule_format, OF ex_hit] obtain b where
    "Inr 0 = (Inr b :: error + addr)"
    and "length (heap ex_loaded ! b) = length cs"
    and "no_writes ex_history \<longrightarrow>
           (\<forall>i<length cs. heap ex_loaded ! b ! i =
              (case stored ex_history ''X'' of
                 Some ps \<Rightarrow> recorded ps i
               | None \<Rightarrow>
                   (case record_of (featurePath ex_loaded (Some ''tfs'') ''X'')
                           (fetch ex_env (featurePath ex_loaded (Some ''tfs'') ''X'')) of
                      None \<Rightarrow> Num 0
                    | Some ps \<Rightarrow> recorded ps i)))"
    by blast
  then have x: "length (heap ex_loaded ! 0) = length (cells ex_base) \<and>
     heap ex_loaded ! 0 ! 1 = recorded [(1, Num 0x3F800000)] 1"
    using ex_no_writes by (simp add: cs ex_cells ex_stored)
  from x y show ?thesis
    using ex_init run ex_no_writes ex_getBaseData ex_resume_Y ex_hit by blast
qed

theorem caller_write_breaks_recorded_values:
  "run_events (ex_history @ [Write 0 0 (Num 0x40E00000)]) ex_loader
     = caller_write 0 0 (Num 0x40E00000) ex_loaded \<and>
   loadFeature ex_env ''X'' None (caller_write 0 0 (Num 0x40E00000) ex_loaded)
     = (Inr 0, caller_write 0 0 (Num 0x40E00000) ex_loaded) \<and>
   heap (caller_write 0 0 (Num 0x40E00000) ex_loaded) ! 0 ! 0 = Num 0x40E00000 \<and>
   stored (ex_history @ [Write 0 0 (Num 0x40E00000)]) ''X'' = Some [(1, Num 0x3F800000)] \<and>
   recorded [(1, Num 0x3F800000)] 0 = Num 0"
  by code_simp

subsection \<open>C9\<close>

text \<open>
  Claim C9: encoding a sparse vector with distinct indices below the cell count and
  decoding the bytes gives back the dense vector. The sparse vector gives a float32, as
  its bit pattern, for some of the cells; the dense vector holds that float32 at these
  cells and zero at the others, and it is compared as JavaScript reads a Float32Array:
  a value that is not a NaN by its exact bit pattern (\<open>number_of_bits w = Num w\<close>), a NaN
  as \<open>NaN\<close>, whatever its payload. The cell count is the length of a JavaScript array,
  so it is below \<open>2^32\<close>.
\<close>

theorem sparse_roundtrip:
  assumes "baseData st = Some bd"
    and "length (cellIds bd) < 2 ^ 32"
    and "distinct (map fst ps)"
    and "\<forall>p\<in>set ps. fst p < length (cellIds bd)"
  shows "parseFeatureBinary st (encode_sparse ps) =
         Inr (map (\<lambda>i. case map_of ps i of None \<Rightarrow> Num 0 | Some w \<Rightarrow> number_of_bits w)
                [0..<length (cellIds bd)])"
proof -
  let ?qs = "map (\<lambda>p. (fst p, number_of_bits (snd p))) ps"
  have l: "length ps < 2 ^ 32"
    using distinct_bounded_length [OF assms(3,4)] assms(2) by simp
  have b: "\<forall>p\<in>set ps. fst p < 2 ^ 32"
    using assms(2,4) by fastforce
  have "distinct (map fst ?qs)" using assms(3) by (simp add: comp_def)
  then have m: "map_of (rev ?qs) = map_of ?qs"
    by (rule map_of_rev_distinct)
  have r: "recorded ?qs i = (case map_of ps i of None \<Rightarrow> Num 0 | Some w \<Rightarrow> number_of_bits w)"
    for i
    by (simp add: recorded_def m map_of_map_snd split: option.splits)
  show ?thesis
    by (simp add: parseFeatureBinary_pairs [OF assms(1)] record_pairs_encode [OF l b]
        dense_def r)
qed

theorem sparse_roundtrip_witness:
  "baseData ex_loader = Some ex_base \<and> length (cellIds ex_base) < 2 ^ 32 \<and>
   distinct (map fst [(1::nat, 0x3F800000::f32), (0, 0x7FA00000)]) \<and>
   fst (1::nat, 0x3F800000::f32) < length (cellIds ex_base) \<and>
   fst (0::nat, 0x7FA00000::f32) < length (cellIds ex_base) \<and>
   parseFeatureBinary ex_loader (encode_sparse [(1, 0x3F800000), (0, 0x7FA00000)])
     = Inr [NaN, Num 0x3F800000]"
proof -
  have h2: "length (cellIds ex_base) < 2 ^ 32" by (simp add: ex_cellCount)
  have h3: "distinct (map fst [(1::nat, 0x3F800000::f32), (0, 0x7FA00000)])" by simp
  have h4: "\<forall>p\<in>set [(1::nat, 0x3F800000::f32), (0, 0x7FA00000)]. fst p < length (cellIds ex_base)"
    by (simp add: ex_cellCount)
  have u: "[0..<2] = [0, 1]" by (simp add: upt_rec)
  have n: "number_of_bits 0x7FA00000 = NaN" "number_of_bits 0x3F800000 = Num 0x3F800000"
    by (simp_all add: number_of_bits_def is_nan_bits_def)
  from sparse_roundtrip [OF ex_baseData h2 h3 h4] ex_baseData h2 h3
  show ?thesis by (simp add: ex_cellCount u n)
qed

subsection \<open>C10\<close>

text \<open>
  Claim C10: the cache is keyed by the feature name alone. Once a load of \<open>n\<close> under
  category \<open>c1\<close> has left \<open>n\<close> in the cache, a later load of \<open>n\<close> under any category
  \<open>c2\<close>, after any other loads, returns the same reference and leaves the state as it
  is: no fetch is issued.
\<close>

theorem cache_keyed_by_name:
  assumes "loadFeature env n c1 st = (Inr a, st')"
    and "map_of (loadedFeatures st') n \<noteq> None"
  shows "loadFeature env' n c2 (run_loads env'' reqs st') = (Inr a, run_loads env'' reqs st')"
proof -
  have "map_of (loadedFeatures st') n = Some a"
  proof (cases "map_of (loadedFeatures st) n")
    case None
    let ?p = "featurePath st c1 n"
    let ?st1 = "st\<lparr>fetchLog := fetchLog st @ [?p]\<rparr>"
    have lf: "loadFeature_resume n ?p (fetch env ?p) ?st1 = (Inr a, st')"
      using assms(1) by (simp add: loadFeature_miss [OF None])
    show ?thesis
    proof (cases "try_decode ?p (fetch env ?p) ?st1")
      case (Inl e)
      from loadFeature_resume_fail [OF Inl, of n] lf None assms(2) show ?thesis by simp
    next
      case (Inr v)
      from loadFeature_resume_ok [OF Inr, of n] lf show ?thesis
        by (auto simp: update_conv')
    qed
  next
    case (Some b)
    with assms show ?thesis by (simp add: loadFeature_hit)
  qed
  from run_loads_keeps_entry [OF this] show ?thesis by (simp add: loadFeature_hit)
qed

theorem cache_keyed_by_name_witness:
  "loadFeature ex_env ''X'' None ex_loader = (Inr 0, ex_loaded) \<and>
   map_of (loadedFeatures ex_loaded) ''X'' \<noteq> None \<and>
   loadFeature ex_offline ''X'' (Some ''tfs'') (run_loads ex_env [(''Y'', None)] ex_loaded)
     = (Inr 0, run_loads ex_env [(''Y'', None)] ex_loaded)"
proof -
  have h: "map_of (loadedFeatures ex_loaded) ''X'' \<noteq> None"
    by (simp add: ex_loaded_def)
  from cache_keyed_by_name [OF ex_load_X h, of ex_offline "Some ''tfs''" ex_env "[(''Y'', None)]"]
    ex_load_X h
  show ?thesis by blast
qed

end
